theory Spec2Isabelle
  imports Complex_Main
begin

section \<open>SoundMixer: a shallow embedding of \<^verbatim>\<open>soundmixer.py\<close>\<close>

text \<open>
  The theory follows the classes of the source: \<^verbatim>\<open>ConfigManager\<close>, \<^verbatim>\<open>AudioController\<close>
  and the hotkey callbacks of \<^verbatim>\<open>SoundMixerApp\<close>.
  Mutable attributes become record fields that are passed in and returned, Python
  exceptions become values of \<open>exn\<close>, and everything outside the process (the
  configuration file, the window manager, the audio sessions) is an explicit state that
  the operations read and update.

  Conventions. Python ints are \<open>int\<close>. A Python float is a finite IEEE double and is
  represented by the real number it denotes; comparisons, \<^verbatim>\<open>min\<close> and \<^verbatim>\<open>max\<close> are exact on
  doubles, and the additions and the \<^verbatim>\<open>round\<close> of the callbacks round their results to a
  double. Infinities and NaN are not modelled: a level is a finite number.
  The third-party modules are taken to be installed, so the \<^verbatim>\<open>import\<close> statements
  inside the methods succeed.
\<close>

subsection \<open>Exceptions\<close>

datatype exn = KeyError | TypeError | AttributeError | COMError

subsection \<open>JSON documents\<close>

text \<open>
  What \<^verbatim>\<open>json.load\<close> returns. A Python dict is an association list with distinct keys,
  in insertion order.
\<close>

datatype json =
    JNull
  | JBool bool
  | JInt int
  | JFloat real
  | JString string
  | JArray "json list"
  | JObject "(string \<times> json) list"

text \<open>\<^verbatim>\<open>d[k]\<close> on a value: KeyError for a missing key, TypeError when the value is not a
  dict (a list or a string indexed by a string, a number or null subscripted).\<close>

fun subscript :: "json \<Rightarrow> string \<Rightarrow> exn + json" where
  "subscript (JObject kvs) k = (case map_of kvs k of None \<Rightarrow> Inl KeyError | Some v \<Rightarrow> Inr v)"
| "subscript _ k = Inl TypeError"

text \<open>\<^verbatim>\<open>d.get(k, dflt)\<close>: only a dict has the method.\<close>

fun dict_get :: "json \<Rightarrow> string \<Rightarrow> json \<Rightarrow> exn + json" where
  "dict_get (JObject kvs) k dflt = (case map_of kvs k of None \<Rightarrow> Inr dflt | Some v \<Rightarrow> Inr v)"
| "dict_get _ k dflt = Inl AttributeError"

subsection \<open>ConfigManager\<close>

definition default_hotkeys :: "(string \<times> json) list" where
  "default_hotkeys =
     [(''volume_up'', JArray [JString ''ctrl'', JString ''alt'', JString ''up'']),
      (''volume_down'', JArray [JString ''ctrl'', JString ''alt'', JString ''down'']),
      (''mute'', JArray [JString ''ctrl'', JString ''alt'', JString ''m'']),
      (''switch_app'', JArray [JString ''ctrl'', JString ''alt'', JString ''tab''])]"

definition default_config :: json where
  "default_config =
     JObject [(''hotkeys'', JObject default_hotkeys),
              (''gui'', JObject [(''opacity'', JFloat 0.85), (''timeout'', JInt 2000)])]"

text \<open>The recognized actions: the keys of \<^verbatim>\<open>HotkeyManager.callbacks\<close>.\<close>

definition actions :: "string list" where
  "actions = [''volume_up'', ''volume_down'', ''mute'', ''switch_app'']"

text \<open>
  The configuration file, as \<^verbatim>\<open>load_config\<close> can find it. A file that parses is
  represented by the document it parses to, and \<^verbatim>\<open>json.dump\<close> writes such a file.
  \<open>NotJSON t\<close> is a file with the text \<open>t\<close> on which \<^verbatim>\<open>json.load\<close> raises
  \<^verbatim>\<open>JSONDecodeError\<close>; \<open>Unreadable\<close> is a file whose opening or loading raises any other
  exception (no read permission, bytes that the locale's codec cannot decode, a nesting too
  deep for the parser).

  \<open>next_write\<close> is what happens to the next \<^verbatim>\<open>with open(path, 'w') as f: json.dump(...)\<close>:
  it goes through; or \<^verbatim>\<open>open\<close> raises, and the file is untouched; or \<^verbatim>\<open>open\<close> has
  truncated the file and the dump raises after the text \<open>t\<close> has reached it, and the file
  is left with \<open>t\<close>, the empty text or a proper beginning of the document's text, which
  is not a JSON text.
\<close>

datatype file_content = Document json | NotJSON string | Unreadable

datatype write_outcome = Written | OpenFails | DumpFails string

record filesystem =
  config_file :: "file_content option"
  next_write :: write_outcome

text \<open>\<^verbatim>\<open>create_default_config\<close>: the write is attempted; an exception of \<^verbatim>\<open>open\<close> or of
  \<^verbatim>\<open>json.dump\<close> is logged and swallowed.\<close>

definition create_default_config :: "filesystem \<Rightarrow> filesystem" where
  "create_default_config fs =
     (case next_write fs of
        Written \<Rightarrow> fs\<lparr>config_file := Some (Document default_config)\<rparr>
      | OpenFails \<Rightarrow> fs
      | DumpFails t \<Rightarrow> fs\<lparr>config_file := Some (NotJSON t)\<rparr>)"

text \<open>\<^verbatim>\<open>load_config\<close> returns the file system it leaves and the configuration.\<close>

definition load_config :: "filesystem \<Rightarrow> filesystem \<times> json" where
  "load_config fs =
     (case config_file fs of
        Some (Document j) \<Rightarrow> (fs, j)
      | Some (NotJSON t) \<Rightarrow> (create_default_config fs, default_config)
      | Some Unreadable \<Rightarrow> (fs, default_config)
      | None \<Rightarrow> (create_default_config fs, default_config))"

text \<open>\<^verbatim>\<open>get_hotkey\<close>: \<^verbatim>\<open>self.config["hotkeys"].get(action, [])\<close>.\<close>

definition get_hotkey :: "json \<Rightarrow> string \<Rightarrow> exn + json" where
  "get_hotkey conf action =
     (case subscript conf ''hotkeys'' of
        Inl e \<Rightarrow> Inl e
      | Inr hotkeys \<Rightarrow> dict_get hotkeys action (JArray []))"

text \<open>\<^verbatim>\<open>get_gui_setting\<close>:
  \<^verbatim>\<open>self.config["gui"].get(setting, self.default_config["gui"][setting])\<close>.
  Python evaluates the receiver \<^verbatim>\<open>self.config["gui"].get\<close> first, then the default
  argument, then the call.\<close>

definition get_gui_setting :: "json \<Rightarrow> string \<Rightarrow> exn + json" where
  "get_gui_setting conf setting =
     (case subscript conf ''gui'' of
        Inl e \<Rightarrow> Inl e
      | Inr gui \<Rightarrow>
          (case gui of
             JObject kvs \<Rightarrow>
               (case subscript default_config ''gui'' of
                  Inl e \<Rightarrow> Inl e
                | Inr dgui \<Rightarrow>
                    (case subscript dgui setting of
                       Inl e \<Rightarrow> Inl e
                     | Inr dflt \<Rightarrow> dict_get gui setting dflt))
           | _ \<Rightarrow> Inl AttributeError))"

subsection \<open>The operating system as the AudioController sees it\<close>

text \<open>
  A volume control (\<^verbatim>\<open>ISimpleAudioVolume\<close>) is a mutable object of the audio service,
  shared by everybody who holds a reference to it: the store \<open>controls\<close> maps the
  references (\<open>handle\<close>) to the state of the control. A call through a handle that the
  store does not hold (the session has gone) raises.
\<close>

type_synonym handle = nat

record control =
  volume :: real
  muted :: bool

text \<open>An entry of \<^verbatim>\<open>AudioUtilities.GetAllSessions()\<close>. \<open>process\<close> tells whether
  \<^verbatim>\<open>session.Process\<close> is a process object (it is \<^verbatim>\<open>None\<close> for the system sounds).\<close>

record session =
  process :: bool
  process_id :: int
  simple_audio_volume :: handle

text \<open>
  \<open>foreground\<close>: the process id that the two win32 calls of \<^verbatim>\<open>get_active_app_pid\<close> give,
  \<open>None\<close> when they raise. \<open>sessions\<close>: the result of \<^verbatim>\<open>GetAllSessions()\<close>, \<open>None\<close>
  when it raises. \<open>default_endpoint\<close>: the interface that \<^verbatim>\<open>initialize_audio\<close> obtains from
  the speakers, \<open>None\<close> when that fails. \<open>scans\<close> counts the calls of
  \<^verbatim>\<open>GetAllSessions()\<close> made so far.
\<close>

record world =
  foreground :: "int option"
  sessions :: "session list option"
  default_endpoint :: "handle option"
  controls :: "handle \<rightharpoonup> control"
  scans :: nat

definition GetMasterVolume :: "world \<Rightarrow> handle \<Rightarrow> exn + real" where
  "GetMasterVolume w h = (case controls w h of None \<Rightarrow> Inl COMError | Some c \<Rightarrow> Inr (volume c))"

definition SetMasterVolume :: "world \<Rightarrow> handle \<Rightarrow> real \<Rightarrow> exn + world" where
  "SetMasterVolume w h v =
     (case controls w h of
        None \<Rightarrow> Inl COMError
      | Some c \<Rightarrow> Inr (w\<lparr>controls := (controls w)(h \<mapsto> c\<lparr>volume := v\<rparr>)\<rparr>))"

definition GetMute :: "world \<Rightarrow> handle \<Rightarrow> exn + bool" where
  "GetMute w h = (case controls w h of None \<Rightarrow> Inl COMError | Some c \<Rightarrow> Inr (muted c))"

definition SetMute :: "world \<Rightarrow> handle \<Rightarrow> bool \<Rightarrow> exn + world" where
  "SetMute w h b =
     (case controls w h of
        None \<Rightarrow> Inl COMError
      | Some c \<Rightarrow> Inr (w\<lparr>controls := (controls w)(h \<mapsto> c\<lparr>muted := b\<rparr>)\<rparr>))"

subsection \<open>AudioController\<close>

record controller =
  volume_interface :: "handle option"
  current_pid :: "int option"
  current_volume_control :: "handle option"

text \<open>\<^verbatim>\<open>__init__\<close> with \<^verbatim>\<open>initialize_audio\<close>: a failure leaves \<^verbatim>\<open>volume_interface = None\<close>.
  The tests \<^verbatim>\<open>if self.current_volume_control:\<close> and \<^verbatim>\<open>elif self.volume_interface:\<close> tell
  \<^verbatim>\<open>None\<close> from an interface pointer; a pointer that was obtained is not null and counts
  as true.\<close>

definition initialize_audio :: "world \<Rightarrow> controller" where
  "initialize_audio w =
     \<lparr>volume_interface = default_endpoint w, current_pid = None,
      current_volume_control = None\<rparr>"

text \<open>The loop of \<^verbatim>\<open>get_volume_control_for_app\<close>: the first session of the process.\<close>

fun find_session :: "session list \<Rightarrow> int \<Rightarrow> handle option" where
  "find_session [] pid = None"
| "find_session (s # ss) pid =
     (if process s \<and> process_id s = pid then Some (simple_audio_volume s)
      else find_session ss pid)"

text \<open>\<^verbatim>\<open>get_volume_control_for_app\<close>: a failure of the enumeration is caught here and
  gives \<^verbatim>\<open>None\<close>, as no matching session does.\<close>

definition get_volume_control_for_app :: "world \<Rightarrow> int \<Rightarrow> world \<times> handle option" where
  "get_volume_control_for_app w pid =
     (w\<lparr>scans := Suc (scans w)\<rparr>,
      case sessions w of None \<Rightarrow> None | Some ss \<Rightarrow> find_session ss pid)"

text \<open>\<^verbatim>\<open>get_active_app_pid\<close>: a failure is caught and gives \<^verbatim>\<open>None\<close>.\<close>

definition get_active_app_pid :: "world \<Rightarrow> int option" where
  "get_active_app_pid w = foreground w"

text \<open>The three lines that \<^verbatim>\<open>set_volume\<close>, \<^verbatim>\<open>get_volume\<close> and \<^verbatim>\<open>toggle_mute\<close> each
  repeat: \<^verbatim>\<open>if pid != self.current_pid:\<close> resolve the control and remember both.\<close>

definition refresh :: "int \<Rightarrow> world \<Rightarrow> controller \<Rightarrow> world \<times> controller" where
  "refresh pid w c =
     (if Some pid \<noteq> current_pid c then
        (case get_volume_control_for_app w pid of
           (w', r) \<Rightarrow> (w', c\<lparr>current_volume_control := r, current_pid := Some pid\<rparr>))
      else (w, c))"

text \<open>\<^verbatim>\<open>set_volume\<close>. \<^verbatim>\<open>not pid\<close> holds for \<^verbatim>\<open>None\<close> and for 0. An exception of the
  COM call is caught by the method; what was assigned before it stays.\<close>

definition set_volume :: "real \<Rightarrow> world \<Rightarrow> controller \<Rightarrow> world \<times> controller" where
  "set_volume level w c =
     (case get_active_app_pid w of
        None \<Rightarrow> (w, c)
      | Some pid \<Rightarrow>
          if pid = 0 then (w, c)
          else
            (case refresh pid w c of
               (w1, c1) \<Rightarrow>
                 (case current_volume_control c1 of
                    Some h \<Rightarrow>
                      (case SetMasterVolume w1 h (max 0 (min 1 level)) of
                         Inl e \<Rightarrow> (w1, c1)
                       | Inr w2 \<Rightarrow> (w2, c1))
                  | None \<Rightarrow>
                      (case volume_interface c1 of
                         Some d \<Rightarrow>
                           (case SetMasterVolume w1 d (max 0 (min 1 level)) of
                              Inl e \<Rightarrow> (w1, c1)
                            | Inr w2 \<Rightarrow> (w2, c1))
                       | None \<Rightarrow> (w1, c1)))))"

text \<open>\<^verbatim>\<open>get_volume\<close> returns the state it leaves and the level.\<close>

definition get_volume :: "world \<Rightarrow> controller \<Rightarrow> (world \<times> controller) \<times> real" where
  "get_volume w c =
     (case get_active_app_pid w of
        None \<Rightarrow> ((w, c), 0.5)
      | Some pid \<Rightarrow>
          if pid = 0 then ((w, c), 0.5)
          else
            (case refresh pid w c of
               (w1, c1) \<Rightarrow>
                 (case current_volume_control c1 of
                    Some h \<Rightarrow>
                      (case GetMasterVolume w1 h of
                         Inl e \<Rightarrow> ((w1, c1), 0.5)
                       | Inr v \<Rightarrow> ((w1, c1), v))
                  | None \<Rightarrow>
                      (case volume_interface c1 of
                         Some d \<Rightarrow>
                           (case GetMasterVolume w1 d of
                              Inl e \<Rightarrow> ((w1, c1), 0.5)
                            | Inr v \<Rightarrow> ((w1, c1), v))
                       | None \<Rightarrow> ((w1, c1), 0.5)))))"

text \<open>\<^verbatim>\<open>toggle_mute\<close>: read the mute flag, write its negation.\<close>

definition toggle_via :: "world \<Rightarrow> handle \<Rightarrow> exn + world" where
  "toggle_via w h =
     (case GetMute w h of
        Inl e \<Rightarrow> Inl e
      | Inr is_muted \<Rightarrow> SetMute w h (\<not> is_muted))"

definition toggle_mute :: "world \<Rightarrow> controller \<Rightarrow> world \<times> controller" where
  "toggle_mute w c =
     (case get_active_app_pid w of
        None \<Rightarrow> (w, c)
      | Some pid \<Rightarrow>
          if pid = 0 then (w, c)
          else
            (case refresh pid w c of
               (w1, c1) \<Rightarrow>
                 (case current_volume_control c1 of
                    Some h \<Rightarrow>
                      (case toggle_via w1 h of Inl e \<Rightarrow> (w1, c1) | Inr w2 \<Rightarrow> (w2, c1))
                  | None \<Rightarrow>
                      (case volume_interface c1 of
                         Some d \<Rightarrow>
                           (case toggle_via w1 d of Inl e \<Rightarrow> (w1, c1) | Inr w2 \<Rightarrow> (w2, c1))
                       | None \<Rightarrow> (w1, c1)))))"

text \<open>The control that an operation ends up using for a process: the cached session
  control, else the default endpoint.\<close>

definition target :: "controller \<Rightarrow> handle option" where
  "target c =
     (case current_volume_control c of Some h \<Rightarrow> Some h | None \<Rightarrow> volume_interface c)"

subsection \<open>Doubles\<close>

text \<open>
  A finite double is an integer multiple of a power of two, with a significand of 53
  bits. \<open>exponent x\<close> is the integer \<open>e\<close> with \<open>2^e \<le> x < 2^(e+1)\<close> for a positive \<open>x\<close>,
  found by halving and doubling.
\<close>

function exponent :: "real \<Rightarrow> int" where
  "exponent x =
     (if x \<le> 0 then 0
      else if 2 \<le> x then exponent (x / 2) + 1
      else if x < 1 then exponent (x * 2) - 1
      else 0)"
  by pat_completeness auto
termination
proof (relation "measure (\<lambda>x. nat \<bar>\<lfloor>log 2 x\<rfloor>\<bar>)")
  show "wf (measure (\<lambda>x. nat \<bar>\<lfloor>log 2 x\<rfloor>\<bar>))" by simp
next
  fix x :: real
  assume "\<not> x \<le> 0" and x2: "2 \<le> x"
  then have pos: "0 < x" by simp
  have "log 2 (x / 2) = log 2 x - 1" using pos by (simp add: log_divide)
  moreover have "1 \<le> log 2 x" using x2 pos by (simp add: le_log_iff)
  ultimately have "\<lfloor>log 2 (x / 2)\<rfloor> = \<lfloor>log 2 x\<rfloor> - 1 \<and> 1 \<le> \<lfloor>log 2 x\<rfloor>"
    by (simp add: le_floor_iff)
  then show "(x / 2, x) \<in> measure (\<lambda>x. nat \<bar>\<lfloor>log 2 x\<rfloor>\<bar>)" by simp
next
  fix x :: real
  assume "\<not> x \<le> 0" and "\<not> 2 \<le> x" and x1: "x < 1"
  then have pos: "0 < x" by simp
  have a: "log 2 (x * 2) = log 2 x + 1" using pos by (simp add: log_mult)
  have "log 2 x < 0" using x1 pos by simp
  then have b: "\<lfloor>log 2 x\<rfloor> \<le> - 1" by (simp add: floor_le_iff)
  have c: "\<lfloor>log 2 (x * 2)\<rfloor> = \<lfloor>log 2 x\<rfloor> + 1" unfolding a by simp
  have "nat \<bar>\<lfloor>log 2 (x * 2)\<rfloor>\<bar> < nat \<bar>\<lfloor>log 2 x\<rfloor>\<bar>" using b c by linarith
  then show "(x * 2, x) \<in> measure (\<lambda>x. nat \<bar>\<lfloor>log 2 x\<rfloor>\<bar>)" by simp
qed

declare exponent.simps [simp del]

definition pow2 :: "int \<Rightarrow> real" where
  "pow2 k = (if 0 \<le> k then 2 ^ nat k else 1 / 2 ^ nat (- k))"

text \<open>Rounding to the nearest integer, a tie to the even one.\<close>

definition round_half_even :: "real \<Rightarrow> int" where
  "round_half_even y =
     (let f = \<lfloor>y\<rfloor>; d = y - of_int f
      in if d < 1 / 2 then f else if 1 / 2 < d then f + 1 else if even f then f else f + 1)"

text \<open>
  \<open>fl x\<close> is the double nearest to the real \<open>x\<close>, a tie going to the even significand: the
  rounding that every floating-point operation and every float literal of Python applies
  to its exact result. The spacing of the doubles around \<open>x\<close> is \<open>2^(e - 52)\<close> with \<open>e\<close>
  the exponent of \<open>x\<close>, and \<open>2^(-1074)\<close> below the normal range. There is no overflow in
  the callbacks: they add 0.05 to a finite level.
\<close>

definition fl :: "real \<Rightarrow> real" where
  "fl x =
     (let u = pow2 (max (exponent \<bar>x\<bar>) (- 1022) - 52)
      in of_int (round_half_even (x / u)) * u)"

text \<open>Python's \<^verbatim>\<open>round(x, n)\<close> of a double \<open>x\<close> with \<open>n \<ge> 0\<close> places: the decimal with \<open>n\<close>
  places nearest to the exact value of \<open>x\<close>, a tie to the even one, and of that decimal
  the nearest double.\<close>

definition py_round :: "real \<Rightarrow> nat \<Rightarrow> real" where
  "py_round x n = fl (of_int (round_half_even (x * 10 ^ n)) / 10 ^ n)"

subsection \<open>SoundMixerApp: the hotkey callbacks\<close>

text \<open>
  Two threads matter: the thread of the user interface, which runs the Qt event loop, and
  the listener thread of the \<^verbatim>\<open>keyboard\<close> module, which runs the callbacks registered with
  \<^verbatim>\<open>keyboard.add_hotkey\<close>. A method runs on the thread that calls it, so the callbacks
  take that thread as an argument, and the application records, with the thread that
  made it, every call to the audio controller, to the key injection, to the overlay and
  to the tray icon (\<open>calls\<close>), and every \<^verbatim>\<open>QTimer.singleShot(0, f)\<close> (\<open>single_shots\<close>).
  A \<^verbatim>\<open>singleShot\<close> does not call \<open>f\<close>; what Qt does with the request is outside the model.
\<close>

datatype thread = UiThread | ListenerThread

datatype call =
    CallGetVolume
  | CallSetVolume real
  | CallToggleMute
  | CallAltTab
  | CallSafeShowOverlay
  | CallShowMessage

datatype ui_task = SafeShowOverlay

text \<open>\<open>alt_tab_ok\<close> tells whether \<^verbatim>\<open>pyautogui.hotkey('alt', 'tab')\<close> returns rather than
  raises, \<open>overlay_ok\<close> whether a call of \<^verbatim>\<open>safe_show_overlay()\<close> does.\<close>

record app =
  os :: world
  audio :: controller
  alt_tab_ok :: bool
  overlay_ok :: bool
  calls :: "(thread \<times> call) list"
  single_shots :: "(thread \<times> ui_task) list"

text \<open>\<^verbatim>\<open>volume_up\<close> and \<^verbatim>\<open>volume_down\<close>. Neither \<^verbatim>\<open>get_volume\<close> nor \<^verbatim>\<open>set_volume\<close> lets an
  exception out, so the handler of the callback has nothing to catch. The literal
  \<^verbatim>\<open>0.05\<close> is the double \<open>fl 0.05\<close>.\<close>

definition volume_up :: "thread \<Rightarrow> app \<Rightarrow> app" where
  "volume_up th a =
     (case get_volume (os a) (audio a) of
        ((w1, c1), current) \<Rightarrow>
          (let new_volume = min 1 (py_round (fl (current + fl 0.05)) 2)
           in case set_volume new_volume w1 c1 of
                (w2, c2) \<Rightarrow>
                  a\<lparr>os := w2, audio := c2,
                    calls := calls a @ [(th, CallGetVolume), (th, CallSetVolume new_volume)],
                    single_shots := single_shots a @ [(th, SafeShowOverlay)]\<rparr>))"

definition volume_down :: "thread \<Rightarrow> app \<Rightarrow> app" where
  "volume_down th a =
     (case get_volume (os a) (audio a) of
        ((w1, c1), current) \<Rightarrow>
          (let new_volume = max 0 (py_round (fl (current - fl 0.05)) 2)
           in case set_volume new_volume w1 c1 of
                (w2, c2) \<Rightarrow>
                  a\<lparr>os := w2, audio := c2,
                    calls := calls a @ [(th, CallGetVolume), (th, CallSetVolume new_volume)],
                    single_shots := single_shots a @ [(th, SafeShowOverlay)]\<rparr>))"

text \<open>\<^verbatim>\<open>SoundMixerApp.toggle_mute\<close>.\<close>

definition app_toggle_mute :: "thread \<Rightarrow> app \<Rightarrow> app" where
  "app_toggle_mute th a =
     (case toggle_mute (os a) (audio a) of
        (w1, c1) \<Rightarrow>
          a\<lparr>os := w1, audio := c1, calls := calls a @ [(th, CallToggleMute)],
            single_shots := single_shots a @ [(th, SafeShowOverlay)]\<rparr>)"

text \<open>\<^verbatim>\<open>switch_app\<close>: when the key injection raises, the handler logs it and the
  \<^verbatim>\<open>singleShot\<close> is not reached. Which window the window manager then brings to the
  foreground is not decided by the program.\<close>

definition switch_app :: "thread \<Rightarrow> app \<Rightarrow> app" where
  "switch_app th a =
     (if alt_tab_ok a then
        a\<lparr>calls := calls a @ [(th, CallAltTab)],
          single_shots := single_shots a @ [(th, SafeShowOverlay)]\<rparr>
      else a\<lparr>calls := calls a @ [(th, CallAltTab)]\<rparr>)"

text \<open>\<^verbatim>\<open>test_hotkey\<close>, the callback of the fixed combination Ctrl+Alt+T: it calls
  \<^verbatim>\<open>safe_show_overlay()\<close> and the tray icon itself, with no handler; when the first call
  raises, the second is not reached.\<close>

definition test_hotkey :: "thread \<Rightarrow> app \<Rightarrow> app" where
  "test_hotkey th a =
     (if overlay_ok a then
        a\<lparr>calls := calls a @ [(th, CallSafeShowOverlay), (th, CallShowMessage)]\<rparr>
      else a\<lparr>calls := calls a @ [(th, CallSafeShowOverlay)]\<rparr>)"

text \<open>\<^verbatim>\<open>tray_icon_activated\<close> is a slot of a Qt signal and runs on the thread of the user
  interface; \<open>double_click\<close> tells whether the reason is a double click.\<close>

definition tray_icon_activated :: "bool \<Rightarrow> app \<Rightarrow> app" where
  "tray_icon_activated double_click a =
     (if double_click then a\<lparr>calls := calls a @ [(UiThread, CallSafeShowOverlay)]\<rparr> else a)"

text \<open>The hotkeys as a datatype, to run sequences of key presses. The \<^verbatim>\<open>keyboard\<close> module
  runs a callback on its listener thread.\<close>

datatype key_action = VolumeUp | VolumeDown | Mute | SwitchApp | TestHotkey

fun press :: "thread \<Rightarrow> key_action \<Rightarrow> app \<Rightarrow> app" where
  "press th VolumeUp a = volume_up th a"
| "press th VolumeDown a = volume_down th a"
| "press th Mute a = app_toggle_mute th a"
| "press th SwitchApp a = switch_app th a"
| "press th TestHotkey a = test_hotkey th a"

fun presses :: "thread \<Rightarrow> key_action list \<Rightarrow> app \<Rightarrow> app" where
  "presses th [] a = a"
| "presses th (k # ks) a = presses th ks (press th k a)"

definition on_hotkeys :: "key_action list \<Rightarrow> app \<Rightarrow> app" where
  "on_hotkeys ks a = presses ListenerThread ks a"

subsection \<open>Notions used to state the properties\<close>

text \<open>The specification's \<open>clamp(v, lo, hi)\<close>.\<close>

definition clamp :: "real \<Rightarrow> real \<Rightarrow> real \<Rightarrow> real" where
  "clamp v lo hi = max lo (min hi v)"

text \<open>The session that a scan for a process finds, said with the library's \<open>find\<close>:
  the first session, in the order of the enumeration, that has a process object and the
  process id asked for.\<close>

definition first_session_of :: "int \<Rightarrow> session list \<Rightarrow> session option" where
  "first_session_of pid ss = find (\<lambda>s. process s \<and> process_id s = pid) ss"

text \<open>The level of the control behind a handle lies in the unit interval (a handle
  without a control has no level).\<close>

definition in_unit :: "world \<Rightarrow> handle \<Rightarrow> bool" where
  "in_unit w h =
     (case controls w h of None \<Rightarrow> True | Some k \<Rightarrow> 0 \<le> volume k \<and> volume k \<le> 1)"

text \<open>The calls that touch the user interface: the overlay and the tray icon.\<close>

fun ui_call :: "call \<Rightarrow> bool" where
  "ui_call CallSafeShowOverlay = True"
| "ui_call CallShowMessage = True"
| "ui_call _ = False"

subsection \<open>Example states\<close>

text \<open>The configuration file of the specification's example: a hotkeys section with
  the mute action only, and nothing else.\<close>

definition mute_only :: json where
  "mute_only =
     JObject [(''hotkeys'',
               JObject [(''mute'', JArray [JString ''ctrl'', JString ''alt'', JString ''m''])])]"

text \<open>A desktop where process 42 owns the foreground window and has an audio session
  with control 1 at level \<open>v\<close>; control 0 is the default endpoint at level 0.8; the
  system sounds (no process, id 0) come first in the enumeration.\<close>

definition player_world :: "real \<Rightarrow> world" where
  "player_world v =
     \<lparr>foreground = Some 42,
      sessions = Some [\<lparr>process = False, process_id = 0, simple_audio_volume = 7\<rparr>,
                       \<lparr>process = True, process_id = 42, simple_audio_volume = 1\<rparr>],
      default_endpoint = Some 0,
      controls = [0 \<mapsto> \<lparr>volume = 0.8, muted = False\<rparr>, 1 \<mapsto> \<lparr>volume = v, muted = False\<rparr>],
      scans = 0\<rparr>"

definition player_app :: "real \<Rightarrow> app" where
  "player_app v =
     \<lparr>os = player_world v, audio = initialize_audio (player_world v), alt_tab_ok = True,
      overlay_ok = True, calls = [], single_shots = []\<rparr>"

text \<open>A desktop with two players: processes 42 and 43 have the session controls 1 and 2,
  process 43 owns the foreground window, process 44 has no session.\<close>

definition two_players :: world where
  "two_players =
     \<lparr>foreground = Some 43,
      sessions = Some [\<lparr>process = False, process_id = 0, simple_audio_volume = 7\<rparr>,
                       \<lparr>process = True, process_id = 42, simple_audio_volume = 1\<rparr>,
                       \<lparr>process = True, process_id = 43, simple_audio_volume = 2\<rparr>],
      default_endpoint = Some 0,
      controls = [0 \<mapsto> \<lparr>volume = 0.8, muted = False\<rparr>, 1 \<mapsto> \<lparr>volume = 0.5, muted = False\<rparr>,
                  2 \<mapsto> \<lparr>volume = 0.6, muted = False\<rparr>],
      scans = 1\<rparr>"

text \<open>The controller after an operation on process 42: its pid and control are cached.\<close>

definition cached_42 :: controller where
  "cached_42 =
     \<lparr>volume_interface = Some 0, current_pid = Some 42, current_volume_control = Some 1\<rparr>"

text \<open>The controller as a resolution for process 42 leaves it when the process has no
  session: the pid is cached with no control.\<close>

definition unresolved_controller :: controller where
  "unresolved_controller =
     \<lparr>volume_interface = Some 0, current_pid = Some 42, current_volume_control = None\<rparr>"

section \<open>Properties of the configuration store\<close>

lemma load_config_fallback:
  assumes "\<And>j. config_file fs \<noteq> Some (Document j)"
  shows "snd (load_config fs) = default_config"
  using assms by (simp add: load_config_def split: option.splits file_content.splits)

lemma load_config_document:
  assumes "config_file fs = Some (Document j)"
  shows "load_config fs = (fs, j)"
  using assms by (simp add: load_config_def)

lemma get_hotkey_default_config:
  assumes "action \<in> set actions"
  shows "get_hotkey default_config action = Inr (the (map_of default_hotkeys action))"
proof -
  from assms consider "action = ''volume_up''" | "action = ''volume_down''"
    | "action = ''mute''" | "action = ''switch_app''"
    by (auto simp: actions_def)
  then show ?thesis
    by cases (simp_all add: get_hotkey_def default_config_def default_hotkeys_def)
qed

lemma get_hotkey_default_volume_up:
  "get_hotkey default_config ''volume_up'' =
     Inr (JArray [JString ''ctrl'', JString ''alt'', JString ''up''])"
  by (simp add: get_hotkey_def default_config_def default_hotkeys_def)

text \<open>
  Claim C1 says that an action missing from the hotkeys section of the loaded file reads
  as its built-in default. On the specification's own example it does not:
  \<^verbatim>\<open>get_hotkey\<close> gives the empty list for \<^verbatim>\<open>volume_up\<close>, not \<^verbatim>\<open>["ctrl","alt","up"]\<close>.
\<close>

theorem absent_action_not_default:
  "get_hotkey (snd (load_config \<lparr>config_file = Some (Document mute_only), next_write = Written\<rparr>))
     ''volume_up'' = Inr (JArray []) \<and>
   get_hotkey (snd (load_config \<lparr>config_file = Some (Document mute_only), next_write = Written\<rparr>))
     ''volume_up'' \<noteq> Inr (JArray [JString ''ctrl'', JString ''alt'', JString ''up''])"
  by (simp add: load_config_def get_hotkey_def mute_only_def)

text \<open>
  Claim C1, amended: when the file parses to a document with a hotkeys section, reading
  an action gives the binding that the section holds for it, and the empty list when the
  section has none; the built-in binding is not consulted.
\<close>

theorem get_hotkey_absent_action:
  assumes "config_file fs = Some (Document (JObject kvs))"
    and "map_of kvs ''hotkeys'' = Some (JObject hk)"
  shows "get_hotkey (snd (load_config fs)) action =
           Inr (case map_of hk action of None \<Rightarrow> JArray [] | Some keys \<Rightarrow> keys)"
  using assms by (simp add: load_config_def get_hotkey_def split: option.splits)

theorem get_hotkey_absent_action_witness:
  "config_file \<lparr>config_file = Some (Document mute_only), next_write = Written\<rparr> =
     Some (Document (JObject [(''hotkeys'',
        JObject [(''mute'', JArray [JString ''ctrl'', JString ''alt'', JString ''m''])])])) \<and>
   get_hotkey (snd (load_config \<lparr>config_file = Some (Document mute_only), next_write = Written\<rparr>))
     ''switch_app'' = Inr (JArray []) \<and>
   get_hotkey (snd (load_config \<lparr>config_file = Some (Document mute_only), next_write = Written\<rparr>))
     ''mute'' = Inr (JArray [JString ''ctrl'', JString ''alt'', JString ''m''])"
  using
    get_hotkey_absent_action
      [of "\<lparr>config_file = Some (Document mute_only), next_write = Written\<rparr>"
          "[(''hotkeys'', JObject [(''mute'', JArray [JString ''ctrl'', JString ''alt'', JString ''m''])])]"
          "[(''mute'', JArray [JString ''ctrl'', JString ''alt'', JString ''m''])]" "''switch_app''"]
    get_hotkey_absent_action
      [of "\<lparr>config_file = Some (Document mute_only), next_write = Written\<rparr>"
          "[(''hotkeys'', JObject [(''mute'', JArray [JString ''ctrl'', JString ''alt'', JString ''m''])])]"
          "[(''mute'', JArray [JString ''ctrl'', JString ''alt'', JString ''m''])]" "''mute''"]
  by (simp add: mute_only_def)

text \<open>The defaults come as a whole document: when the file is absent or cannot be
  loaded, every recognized action reads as its built-in binding.\<close>

lemma get_hotkey_after_fallback:
  assumes "\<And>j. config_file fs \<noteq> Some (Document j)" and "action \<in> set actions"
  shows "get_hotkey (snd (load_config fs)) action = Inr (the (map_of default_hotkeys action))"
  using load_config_fallback[OF assms(1)] get_hotkey_default_config[OF assms(2)] by simp

text \<open>
  Claim C5 says that a file that exists and does not parse is rewritten with the
  defaults. \<^verbatim>\<open>create_default_config\<close> swallows a failure of its write, so a file that
  cannot be opened for writing stays as it was.
\<close>

theorem unwritable_file_not_rewritten:
  "snd (load_config \<lparr>config_file = Some (NotJSON ''{''), next_write = OpenFails\<rparr>) =
     default_config \<and>
   config_file (fst (load_config \<lparr>config_file = Some (NotJSON ''{''), next_write = OpenFails\<rparr>)) =
     Some (NotJSON ''{'') \<and>
   config_file (fst (load_config \<lparr>config_file = Some (NotJSON ''{''), next_write = OpenFails\<rparr>)) \<noteq>
     Some (Document default_config)"
  by (simp add: load_config_def create_default_config_def)

text \<open>
  Claim C5, amended: for a file on which \<^verbatim>\<open>json.load\<close> raises \<^verbatim>\<open>JSONDecodeError\<close>,
  \<^verbatim>\<open>load_config\<close> returns the complete default configuration, with no exception, and
  attempts to rewrite the file. The file holds the defaults afterwards when the write
  goes through; it is as before when it cannot be opened for writing; it holds what had
  been written, no JSON text, when the dump fails after the file was opened.
\<close>

theorem load_config_not_json:
  assumes "config_file fs = Some (NotJSON t)"
  shows "snd (load_config fs) = default_config \<and>
         config_file (fst (load_config fs)) =
           (case next_write fs of
              Written \<Rightarrow> Some (Document default_config)
            | OpenFails \<Rightarrow> Some (NotJSON t)
            | DumpFails t' \<Rightarrow> Some (NotJSON t'))"
  using assms
  by (simp add: load_config_def create_default_config_def split: write_outcome.splits)

theorem load_config_not_json_witness:
  "config_file \<lparr>config_file = Some (NotJSON ''{''), next_write = Written\<rparr> =
     Some (NotJSON ''{'') \<and>
   snd (load_config \<lparr>config_file = Some (NotJSON ''{''), next_write = Written\<rparr>) =
     default_config \<and>
   config_file (fst (load_config \<lparr>config_file = Some (NotJSON ''{''), next_write = Written\<rparr>)) =
     Some (Document default_config) \<and>
   config_file (fst (load_config
       \<lparr>config_file = Some (NotJSON ''{''), next_write = DumpFails []\<rparr>)) =
     Some (NotJSON [])"
  using
    load_config_not_json [of "\<lparr>config_file = Some (NotJSON ''{''), next_write = Written\<rparr>" "''{''"]
    load_config_not_json
      [of "\<lparr>config_file = Some (NotJSON ''{''), next_write = DumpFails []\<rparr>" "''{''"]
  by simp

text \<open>Any other failure of the load gives the defaults too, and the file is not written
  at all; a missing file is created.\<close>

lemma load_config_unreadable:
  assumes "config_file fs = Some Unreadable"
  shows "load_config fs = (fs, default_config)"
  using assms by (simp add: load_config_def)

lemma load_config_missing:
  assumes "config_file fs = None"
  shows "load_config fs = (create_default_config fs, default_config)"
  using assms by (simp add: load_config_def)

text \<open>The settings of the overlay fall back key by key.\<close>

lemma get_gui_setting_falls_back:
  "get_gui_setting (JObject [(''gui'', JObject [])]) ''timeout'' = Inr (JInt 2000)"
  "get_gui_setting mute_only ''timeout'' = Inl KeyError"
  by (simp_all add: get_gui_setting_def default_config_def mute_only_def)

section \<open>Properties of the audio controller\<close>

subsection \<open>The scan and the cache\<close>

lemma find_session_None:
  "find_session ss pid = None \<longleftrightarrow> (\<forall>s \<in> set ss. \<not> (process s \<and> process_id s = pid))"
  by (induction ss) auto

lemma find_session_Some:
  "find_session ss pid = Some h \<Longrightarrow>
     \<exists>s \<in> set ss. process s \<and> process_id s = pid \<and> simple_audio_volume s = h"
  by (induction ss) (auto split: if_splits)

lemma refresh_miss:
  "Some pid \<noteq> current_pid c \<Longrightarrow>
   refresh pid w c =
     (w\<lparr>scans := Suc (scans w)\<rparr>,
      c\<lparr>current_volume_control :=
           (case sessions w of None \<Rightarrow> None | Some ss \<Rightarrow> find_session ss pid),
        current_pid := Some pid\<rparr>)"
  by (simp add: refresh_def get_volume_control_for_app_def)

lemma refresh_hit: "current_pid c = Some pid \<Longrightarrow> refresh pid w c = (w, c)"
  by (simp add: refresh_def)

lemma refresh_world [simp]:
  "controls (fst (refresh pid w c)) = controls w"
  "foreground (fst (refresh pid w c)) = foreground w"
  "sessions (fst (refresh pid w c)) = sessions w"
  "default_endpoint (fst (refresh pid w c)) = default_endpoint w"
  by (simp_all add: refresh_def get_volume_control_for_app_def)

lemma refresh_controller [simp]:
  "current_pid (snd (refresh pid w c)) = Some pid"
  "volume_interface (snd (refresh pid w c)) = volume_interface c"
  by (auto simp add: refresh_def get_volume_control_for_app_def)

subsection \<open>The three operations, once a foreground process is known\<close>

lemma get_volume_eq:
  assumes "foreground w = Some pid" and "pid \<noteq> 0"
  shows "get_volume w c =
           (refresh pid w c,
            case target (snd (refresh pid w c)) of
              None \<Rightarrow> 0.5
            | Some h \<Rightarrow> (case controls w h of None \<Rightarrow> 0.5 | Some k \<Rightarrow> volume k))"
proof -
  obtain w1 c1 where r: "refresh pid w c = (w1, c1)" by (cases "refresh pid w c")
  have cw: "controls w1 = controls w" using refresh_world(1)[of pid w c] r by simp
  show ?thesis using assms r cw
    by (simp add: get_volume_def get_active_app_pid_def target_def GetMasterVolume_def
        split: option.splits)
qed

lemma set_volume_eq:
  assumes "foreground w = Some pid" and "pid \<noteq> 0"
  shows "set_volume level w c =
           (case refresh pid w c of
              (w1, c1) \<Rightarrow>
                (case target c1 of
                   None \<Rightarrow> (w1, c1)
                 | Some h \<Rightarrow>
                     (case controls w h of
                        None \<Rightarrow> (w1, c1)
                      | Some k \<Rightarrow>
                          (w1\<lparr>controls := (controls w)(h \<mapsto> k\<lparr>volume := clamp level 0 1\<rparr>)\<rparr>,
                           c1))))"
proof -
  obtain w1 c1 where r: "refresh pid w c = (w1, c1)" by (cases "refresh pid w c")
  have cw: "controls w1 = controls w" using refresh_world(1)[of pid w c] r by simp
  show ?thesis using assms r cw
    by (simp add: set_volume_def get_active_app_pid_def target_def SetMasterVolume_def
        clamp_def split: option.splits)
qed

lemma toggle_mute_eq:
  assumes "foreground w = Some pid" and "pid \<noteq> 0"
  shows "toggle_mute w c =
           (case refresh pid w c of
              (w1, c1) \<Rightarrow>
                (case target c1 of
                   None \<Rightarrow> (w1, c1)
                 | Some h \<Rightarrow>
                     (case controls w h of
                        None \<Rightarrow> (w1, c1)
                      | Some k \<Rightarrow>
                          (w1\<lparr>controls := (controls w)(h \<mapsto> k\<lparr>muted := \<not> muted k\<rparr>)\<rparr>,
                           c1))))"
proof -
  obtain w1 c1 where r: "refresh pid w c = (w1, c1)" by (cases "refresh pid w c")
  have cw: "controls w1 = controls w" using refresh_world(1)[of pid w c] r by simp
  show ?thesis using assms r cw
    by (simp add: toggle_mute_def get_active_app_pid_def target_def toggle_via_def
        GetMute_def SetMute_def split: option.splits)
qed

lemma no_pid:
  assumes "foreground w = None \<or> foreground w = Some 0"
  shows "set_volume level w c = (w, c)"
    and "toggle_mute w c = (w, c)"
    and "get_volume w c = ((w, c), 0.5)"
  using assms
  by (auto simp: set_volume_def toggle_mute_def get_volume_def get_active_app_pid_def)

lemma pid_cases:
  obtains pid where "foreground w = Some pid" and "pid \<noteq> 0"
  | "foreground w = None \<or> foreground w = Some 0"
  by (cases "foreground w") auto

lemma get_volume_hit:
  assumes "foreground w = Some pid" and "pid \<noteq> 0" and "current_pid c = Some pid"
  shows "get_volume w c =
           ((w, c), case target c of None \<Rightarrow> 0.5
                    | Some h \<Rightarrow> (case controls w h of None \<Rightarrow> 0.5 | Some k \<Rightarrow> volume k))"
  using get_volume_eq[OF assms(1,2), of c] refresh_hit[OF assms(3), of w] by simp

lemma set_volume_hit:
  assumes "foreground w = Some pid" and "pid \<noteq> 0" and "current_pid c = Some pid"
  shows "set_volume level w c =
           (case target c of None \<Rightarrow> (w, c)
            | Some h \<Rightarrow>
                (case controls w h of None \<Rightarrow> (w, c)
                 | Some k \<Rightarrow>
                     (w\<lparr>controls := (controls w)(h \<mapsto> k\<lparr>volume := clamp level 0 1\<rparr>)\<rparr>, c)))"
  using set_volume_eq[OF assms(1,2), of level c] refresh_hit[OF assms(3), of w] by simp

lemma toggle_mute_hit:
  assumes "foreground w = Some pid" and "pid \<noteq> 0" and "current_pid c = Some pid"
  shows "toggle_mute w c =
           (case target c of None \<Rightarrow> (w, c)
            | Some h \<Rightarrow>
                (case controls w h of None \<Rightarrow> (w, c)
                 | Some k \<Rightarrow>
                     (w\<lparr>controls := (controls w)(h \<mapsto> k\<lparr>muted := \<not> muted k\<rparr>)\<rparr>, c)))"
  using toggle_mute_eq[OF assms(1,2), of c] refresh_hit[OF assms(3), of w] by simp

lemmas bridge_defs =
  get_volume_def set_volume_def toggle_mute_def toggle_via_def refresh_def
  get_volume_control_for_app_def get_active_app_pid_def GetMasterVolume_def
  SetMasterVolume_def GetMute_def SetMute_def initialize_audio_def target_def clamp_def

subsection \<open>Resolution follows the foreground process\<close>

lemma find_session_first:
  "find_session ss pid = map_option simple_audio_volume (first_session_of pid ss)"
  by (induction ss) (simp_all add: first_session_of_def)

text \<open>
  Claim C3. The controller keeps one cached pair of process id and control. An operation
  that finds a foreground process other than the cached one scans the sessions again
  (one more call of \<^verbatim>\<open>GetAllSessions\<close>) and caches, with the new process id, the control
  of the first session of that process, or no control when no session matches or the
  enumeration fails; an operation that finds the cached process again scans nothing and
  keeps the cache. The operation then reads or writes through the control now cached,
  not the one cached before, and through the default endpoint when none is cached.
  The theorem gives the whole result of the three operations in these terms.
\<close>

theorem cache_policy:
  assumes "foreground w = Some pid" and "pid \<noteq> 0"
    and "r = (if Some pid \<noteq> current_pid c then
                (case sessions w of
                   None \<Rightarrow> None
                 | Some ss \<Rightarrow> map_option simple_audio_volume (first_session_of pid ss))
              else current_volume_control c)"
    and "c' = c\<lparr>current_volume_control := r, current_pid := Some pid\<rparr>"
    and "w' = w\<lparr>scans := (if Some pid \<noteq> current_pid c then Suc (scans w) else scans w)\<rparr>"
    and "tgt = (case r of Some h \<Rightarrow> Some h | None \<Rightarrow> volume_interface c)"
  shows "get_volume w c =
           ((w', c'),
            case tgt of
              None \<Rightarrow> 0.5
            | Some h \<Rightarrow> (case controls w h of None \<Rightarrow> 0.5 | Some k \<Rightarrow> volume k)) \<and>
         set_volume level w c =
           (case tgt of
              None \<Rightarrow> (w', c')
            | Some h \<Rightarrow>
                (case controls w h of
                   None \<Rightarrow> (w', c')
                 | Some k \<Rightarrow>
                     (w'\<lparr>controls := (controls w)(h \<mapsto> k\<lparr>volume := clamp level 0 1\<rparr>)\<rparr>, c'))) \<and>
         toggle_mute w c =
           (case tgt of
              None \<Rightarrow> (w', c')
            | Some h \<Rightarrow>
                (case controls w h of
                   None \<Rightarrow> (w', c')
                 | Some k \<Rightarrow>
                     (w'\<lparr>controls := (controls w)(h \<mapsto> k\<lparr>muted := \<not> muted k\<rparr>)\<rparr>, c'))) \<and>
         (Some pid = current_pid c \<longrightarrow> w' = w \<and> c' = c)"
proof -
  have rf: "refresh pid w c = (w', c')"
  proof (cases "Some pid \<noteq> current_pid c")
    case True
    then show ?thesis
      using refresh_miss[OF True, of w] assms(3,4,5)
      by (simp add: find_session_first split: option.splits)
  next
    case False
    then have hit: "current_pid c = Some pid" by simp
    have "c' = c" using assms(3,4) hit by simp
    moreover have "w' = w" using assms(5) hit by simp
    ultimately show ?thesis using refresh_hit[OF hit, of w] by simp
  qed
  have tg: "target c' = tgt"
    using assms(4,6) by (simp add: target_def split: option.splits)
  have cw: "controls w' = controls w" using assms(5) by simp
  have g: "get_volume w c =
           ((w', c'),
            case tgt of
              None \<Rightarrow> 0.5
            | Some h \<Rightarrow> (case controls w h of None \<Rightarrow> 0.5 | Some k \<Rightarrow> volume k))"
    using get_volume_eq[OF assms(1,2), of c] rf tg by simp
  have s: "set_volume level w c =
           (case tgt of
              None \<Rightarrow> (w', c')
            | Some h \<Rightarrow>
                (case controls w h of
                   None \<Rightarrow> (w', c')
                 | Some k \<Rightarrow>
                     (w'\<lparr>controls := (controls w)(h \<mapsto> k\<lparr>volume := clamp level 0 1\<rparr>)\<rparr>, c')))"
    using set_volume_eq[OF assms(1,2), of level c] rf tg by simp
  have m: "toggle_mute w c =
           (case tgt of
              None \<Rightarrow> (w', c')
            | Some h \<Rightarrow>
                (case controls w h of
                   None \<Rightarrow> (w', c')
                 | Some k \<Rightarrow>
                     (w'\<lparr>controls := (controls w)(h \<mapsto> k\<lparr>muted := \<not> muted k\<rparr>)\<rparr>, c')))"
    using toggle_mute_eq[OF assms(1,2), of c] rf tg by simp
  have h: "Some pid = current_pid c \<longrightarrow> w' = w \<and> c' = c"
    using assms(3,4,5) by simp
  show ?thesis using g s m h by (intro conjI)
qed

text \<open>The cache holds process 42 and its control 1. Process 43 comes to the foreground:
  the operation scans, finds control 2 as the first session of process 43 (the third
  entry of the enumeration), caches it, and reads, sets or mutes control 2, leaving
  control 1 alone. Process 44 has no session: its operation scans and goes to the default
  endpoint, control 0. An operation that finds the cached process 43 scans nothing.\<close>

theorem cache_policy_witness:
  "foreground two_players = Some 43 \<and> Some 43 \<noteq> current_pid cached_42 \<and>
   snd (get_volume two_players cached_42) = 0.6 \<and>
   scans (fst (fst (get_volume two_players cached_42))) = 2 \<and>
   snd (fst (get_volume two_players cached_42)) =
     \<lparr>volume_interface = Some 0, current_pid = Some 43, current_volume_control = Some 2\<rparr> \<and>
   controls (fst (set_volume 0.3 two_players cached_42)) 2 =
     Some \<lparr>volume = 0.3, muted = False\<rparr> \<and>
   controls (fst (set_volume 0.3 two_players cached_42)) 1 =
     Some \<lparr>volume = 0.5, muted = False\<rparr> \<and>
   snd (set_volume 0.3 two_players cached_42) =
     \<lparr>volume_interface = Some 0, current_pid = Some 43, current_volume_control = Some 2\<rparr> \<and>
   controls (fst (toggle_mute two_players cached_42)) 2 =
     Some \<lparr>volume = 0.6, muted = True\<rparr> \<and>
   controls (fst (toggle_mute two_players cached_42)) 1 =
     Some \<lparr>volume = 0.5, muted = False\<rparr> \<and>
   snd (get_volume (two_players\<lparr>foreground := Some 44\<rparr>) cached_42) = 0.8 \<and>
   snd (fst (get_volume (two_players\<lparr>foreground := Some 44\<rparr>) cached_42)) =
     \<lparr>volume_interface = Some 0, current_pid = Some 44, current_volume_control = None\<rparr> \<and>
   get_volume two_players
     \<lparr>volume_interface = Some 0, current_pid = Some 43, current_volume_control = Some 2\<rparr> =
     ((two_players,
       \<lparr>volume_interface = Some 0, current_pid = Some 43, current_volume_control = Some 2\<rparr>),
      0.6)"
proof -
  have f43: "foreground two_players = Some 43" by (simp add: two_players_def)
  have f44: "foreground (two_players\<lparr>foreground := Some 44\<rparr>) = Some 44" by simp
  have n43: "(43 :: int) \<noteq> 0" and n44: "(44 :: int) \<noteq> 0" by simp_all
  show ?thesis
    using
      cache_policy [OF f43 n43 refl refl refl refl, of cached_42 "0.3"]
      cache_policy [OF f44 n44 refl refl refl refl, of cached_42 "0.3"]
      cache_policy [OF f43 n43 refl refl refl refl,
        of "\<lparr>volume_interface = Some 0, current_pid = Some 43, current_volume_control = Some 2\<rparr>"
           "0.3"]
    by (simp add: two_players_def cached_42_def first_session_of_def clamp_def)
qed

subsection \<open>Reading back what was set\<close>

text \<open>
  Claim C4. With a foreground process and a live control behind it (its session control,
  or the default endpoint when it has no session), the level read back after
  \<^verbatim>\<open>set_volume v\<close> is \<open>clamp v 0 1\<close>, for every \<open>v\<close>, and the read changes nothing;
  setting the clamped level again changes nothing either, so it reads back the same.
\<close>

theorem set_then_get:
  assumes "foreground w = Some pid" and "pid \<noteq> 0"
    and "target (snd (set_volume v w c)) = Some h" and "controls w h = Some k"
  shows "get_volume (fst (set_volume v w c)) (snd (set_volume v w c)) =
           (set_volume v w c, clamp v 0 1) \<and>
         set_volume (clamp v 0 1) (fst (set_volume v w c)) (snd (set_volume v w c)) =
           set_volume v w c"
proof -
  obtain w0 c0 where r: "refresh pid w c = (w0, c0)" by (cases "refresh pid w c")
  obtain w1 c1 where s: "set_volume v w c = (w1, c1)" by (cases "set_volume v w c")
  have c01: "c1 = c0" using set_volume_eq[OF assms(1,2), of v c] r s
    by (simp split: option.splits)
  have t: "target c1 = Some h" using assms(3) s by simp
  have w1: "w1 = w0\<lparr>controls := (controls w)(h \<mapsto> k\<lparr>volume := clamp v 0 1\<rparr>)\<rparr>"
    using set_volume_eq[OF assms(1,2), of v c] r s t assms(4) c01 by simp
  have pid1: "current_pid c1 = Some pid"
    using refresh_controller(1)[of pid w c] r c01 by simp
  have fg1: "foreground w1 = Some pid"
    using refresh_world(2)[of pid w c] r w1 assms(1) by simp
  have g: "get_volume w1 c1 = ((w1, c1), clamp v 0 1)"
    using get_volume_hit[OF fg1 assms(2) pid1] t w1 by simp
  have cc: "clamp (clamp v 0 1) 0 1 = clamp v 0 1" by (simp add: clamp_def)
  have again: "set_volume (clamp v 0 1) w1 c1 = (w1, c1)"
    using set_volume_hit[OF fg1 assms(2) pid1, of "clamp v 0 1"] t w1 cc by simp
  show ?thesis using g again s by simp
qed

theorem set_then_get_witness:
  "foreground (player_world 0.5) = Some 42 \<and>
   target (snd (set_volume 1.7 (player_world 0.5) (initialize_audio (player_world 0.5)))) = Some 1 \<and>
   controls (player_world 0.5) 1 = Some \<lparr>volume = 0.5, muted = False\<rparr> \<and>
   snd (get_volume (fst (set_volume 1.7 (player_world 0.5) (initialize_audio (player_world 0.5))))
                   (snd (set_volume 1.7 (player_world 0.5) (initialize_audio (player_world 0.5))))) = 1 \<and>
   snd (get_volume (fst (set_volume (- 0.2) (player_world 0.5) (initialize_audio (player_world 0.5))))
                   (snd (set_volume (- 0.2) (player_world 0.5) (initialize_audio (player_world 0.5))))) = 0"
  using
    set_then_get [of "player_world 0.5" 42 "1.7" "initialize_audio (player_world 0.5)" 1
      "\<lparr>volume = 0.5, muted = False\<rparr>"]
    set_then_get [of "player_world 0.5" 42 "- 0.2" "initialize_audio (player_world 0.5)" 1
      "\<lparr>volume = 0.5, muted = False\<rparr>"]
  by (simp add: player_world_def bridge_defs)

subsection \<open>Muting twice\<close>

lemma toggle_mute_involution:
  "controls (fst (toggle_mute (fst (toggle_mute w c)) (snd (toggle_mute w c)))) = controls w"
proof (cases w rule: pid_cases)
  case (1 pid)
  obtain w0 c0 where r: "refresh pid w c = (w0, c0)" by (cases "refresh pid w c")
  have pid0: "current_pid c0 = Some pid" using refresh_controller(1)[of pid w c] r by simp
  have fg0: "foreground w0 = Some pid" using refresh_world(2)[of pid w c] r 1 by simp
  have cw: "controls w0 = controls w" using refresh_world(1)[of pid w c] r by simp
  show ?thesis
  proof (cases "target c0")
    case None
    then have "toggle_mute w c = (w0, c0)" using toggle_mute_eq[OF 1, of c] r by simp
    moreover have "toggle_mute w0 c0 = (w0, c0)"
      using toggle_mute_hit[OF fg0 1(2) pid0] None by simp
    ultimately show ?thesis using cw by simp
  next
    case (Some h)
    show ?thesis
    proof (cases "controls w h")
      case None
      then have "toggle_mute w c = (w0, c0)" using toggle_mute_eq[OF 1, of c] r Some by simp
      moreover have "toggle_mute w0 c0 = (w0, c0)"
        using toggle_mute_hit[OF fg0 1(2) pid0] Some None cw by simp
      ultimately show ?thesis using cw by simp
    next
      case (Some k)
      let ?w1 = "w0\<lparr>controls := (controls w)(h \<mapsto> k\<lparr>muted := \<not> muted k\<rparr>)\<rparr>"
      have first: "toggle_mute w c = (?w1, c0)"
        using toggle_mute_eq[OF 1, of c] r \<open>target c0 = Some h\<close> Some by simp
      have fg1: "foreground ?w1 = Some pid" using fg0 by simp
      have second: "toggle_mute ?w1 c0 = (?w1\<lparr>controls := (controls ?w1)(h \<mapsto> k)\<rparr>, c0)"
        using toggle_mute_hit[OF fg1 1(2) pid0] \<open>target c0 = Some h\<close> by simp
      have "(controls w)(h \<mapsto> k) = controls w" using Some by (simp add: map_upd_triv)
      then show ?thesis using first second by simp
    qed
  qed
next
  case 2
  then show ?thesis using no_pid(2)[OF 2] by simp
qed

text \<open>
  Claim C7. With a foreground process and a live control behind it (its session control,
  or the default endpoint when it has no session), one \<^verbatim>\<open>toggle_mute\<close> inverts the
  mute flag of that control, whatever it was, and a second one with the same process in
  the foreground restores every control to its first state and leaves the cache as it is.
\<close>

theorem toggle_mute_twice:
  assumes "foreground w = Some pid" and "pid \<noteq> 0"
    and "target (snd (toggle_mute w c)) = Some h" and "controls w h = Some k"
  shows "controls (fst (toggle_mute w c)) h = Some (k\<lparr>muted := \<not> muted k\<rparr>) \<and>
         controls (fst (toggle_mute (fst (toggle_mute w c)) (snd (toggle_mute w c)))) =
           controls w \<and>
         snd (toggle_mute (fst (toggle_mute w c)) (snd (toggle_mute w c))) =
           snd (toggle_mute w c)"
proof -
  obtain w0 c0 where r: "refresh pid w c = (w0, c0)" by (cases "refresh pid w c")
  obtain w1 c1 where s: "toggle_mute w c = (w1, c1)" by (cases "toggle_mute w c")
  have c01: "c1 = c0" using toggle_mute_eq[OF assms(1,2), of c] r s
    by (simp split: option.splits)
  have t: "target c1 = Some h" using assms(3) s by simp
  have w1: "w1 = w0\<lparr>controls := (controls w)(h \<mapsto> k\<lparr>muted := \<not> muted k\<rparr>)\<rparr>"
    using toggle_mute_eq[OF assms(1,2), of c] r s t assms(4) c01 by simp
  have pid1: "current_pid c1 = Some pid"
    using refresh_controller(1)[of pid w c] r c01 by simp
  have fg1: "foreground w1 = Some pid"
    using refresh_world(2)[of pid w c] r w1 assms(1) by simp
  have second: "toggle_mute w1 c1 = (w1\<lparr>controls := (controls w1)(h \<mapsto> k)\<rparr>, c1)"
    using toggle_mute_hit[OF fg1 assms(2) pid1] t w1 by simp
  have "(controls w)(h \<mapsto> k) = controls w" using assms(4) by (simp add: map_upd_triv)
  then show ?thesis using s second w1 by simp
qed

text \<open>Process 42 has a session (control 1); process 43 has none and is muted through
  the default endpoint (control 0).\<close>

theorem toggle_mute_twice_witness:
  "foreground (player_world 0.5) = Some 42 \<and>
   target (snd (toggle_mute (player_world 0.5) (initialize_audio (player_world 0.5)))) = Some 1 \<and>
   controls (fst (toggle_mute (player_world 0.5) (initialize_audio (player_world 0.5)))) 1 =
     Some \<lparr>volume = 0.5, muted = True\<rparr> \<and>
   controls (fst (toggle_mute
       (fst (toggle_mute (player_world 0.5) (initialize_audio (player_world 0.5))))
       (snd (toggle_mute (player_world 0.5) (initialize_audio (player_world 0.5)))))) 1 =
     Some \<lparr>volume = 0.5, muted = False\<rparr> \<and>
   target (snd (toggle_mute ((player_world 0.5)\<lparr>foreground := Some 43\<rparr>)
       (initialize_audio (player_world 0.5)))) = Some 0 \<and>
   controls (fst (toggle_mute ((player_world 0.5)\<lparr>foreground := Some 43\<rparr>)
       (initialize_audio (player_world 0.5)))) 0 = Some \<lparr>volume = 0.8, muted = True\<rparr>"
  using
    toggle_mute_twice [of "player_world 0.5" 42 "initialize_audio (player_world 0.5)" 1
      "\<lparr>volume = 0.5, muted = False\<rparr>"]
    toggle_mute_twice [of "(player_world 0.5)\<lparr>foreground := Some 43\<rparr>" 43
      "initialize_audio (player_world 0.5)" 0 "\<lparr>volume = 0.8, muted = False\<rparr>"]
  by (simp add: player_world_def bridge_defs)

subsection \<open>A process without a session\<close>

text \<open>
  Claim C10. Once the cache holds the foreground process with no control, each of
  \<^verbatim>\<open>get_volume\<close>, \<^verbatim>\<open>set_volume\<close> and \<^verbatim>\<open>toggle_mute\<close>, made while that process stays in the
  foreground, works on the default endpoint (and does nothing, or reads 0.5, when there
  is no default endpoint or its call fails), leaves the cache as it is and does not scan
  the sessions, whatever sessions exist by then: a session that the process has opened in
  the meantime is not used. The cache changes only on an operation that finds another
  foreground process (claim C3).
\<close>

theorem cached_none_uses_default_endpoint:
  assumes "foreground w = Some pid" and "pid \<noteq> 0"
    and "current_pid c = Some pid" and "current_volume_control c = None"
  shows "get_volume w c =
           ((w, c), case volume_interface c of None \<Rightarrow> 0.5
                    | Some d \<Rightarrow> (case controls w d of None \<Rightarrow> 0.5 | Some k \<Rightarrow> volume k)) \<and>
         set_volume level w c =
           (case volume_interface c of None \<Rightarrow> (w, c)
            | Some d \<Rightarrow>
                (case controls w d of None \<Rightarrow> (w, c)
                 | Some k \<Rightarrow>
                     (w\<lparr>controls := (controls w)(d \<mapsto> k\<lparr>volume := clamp level 0 1\<rparr>)\<rparr>, c))) \<and>
         toggle_mute w c =
           (case volume_interface c of None \<Rightarrow> (w, c)
            | Some d \<Rightarrow>
                (case controls w d of None \<Rightarrow> (w, c)
                 | Some k \<Rightarrow>
                     (w\<lparr>controls := (controls w)(d \<mapsto> k\<lparr>muted := \<not> muted k\<rparr>)\<rparr>, c))) \<and>
         scans (fst (fst (get_volume w c))) = scans w \<and>
         scans (fst (set_volume level w c)) = scans w \<and>
         scans (fst (toggle_mute w c)) = scans w"
proof -
  have t: "target c = volume_interface c" using assms(4) by (simp add: target_def)
  have g: "get_volume w c =
           ((w, c), case volume_interface c of None \<Rightarrow> 0.5
                    | Some d \<Rightarrow> (case controls w d of None \<Rightarrow> 0.5 | Some k \<Rightarrow> volume k))"
    using get_volume_hit[OF assms(1,2,3)] t by simp
  have s: "set_volume level w c =
           (case volume_interface c of None \<Rightarrow> (w, c)
            | Some d \<Rightarrow>
                (case controls w d of None \<Rightarrow> (w, c)
                 | Some k \<Rightarrow>
                     (w\<lparr>controls := (controls w)(d \<mapsto> k\<lparr>volume := clamp level 0 1\<rparr>)\<rparr>, c)))"
    using set_volume_hit[OF assms(1,2,3)] t by simp
  have m: "toggle_mute w c =
           (case volume_interface c of None \<Rightarrow> (w, c)
            | Some d \<Rightarrow>
                (case controls w d of None \<Rightarrow> (w, c)
                 | Some k \<Rightarrow>
                     (w\<lparr>controls := (controls w)(d \<mapsto> k\<lparr>muted := \<not> muted k\<rparr>)\<rparr>, c)))"
    using toggle_mute_hit[OF assms(1,2,3)] t by simp
  have g': "scans (fst (fst (get_volume w c))) = scans w" using g by simp
  have s': "scans (fst (set_volume level w c)) = scans w"
    unfolding s by (simp split: option.splits)
  have m': "scans (fst (toggle_mute w c)) = scans w"
    unfolding m by (simp split: option.splits)
  show ?thesis using g s m g' s' m' by (intro conjI)
qed

text \<open>The cache was filled while process 42 had no session. The process has session
  control 1 now (a scan would find it), and the operations still go to the default
  endpoint, control 0.\<close>

theorem cached_none_uses_default_endpoint_witness:
  "snd (fst (get_volume ((player_world 0.5)\<lparr>sessions := Some []\<rparr>)
                        (initialize_audio (player_world 0.5)))) = unresolved_controller \<and>
   foreground (player_world 0.5) = Some 42 \<and>
   current_pid unresolved_controller = Some 42 \<and>
   current_volume_control unresolved_controller = None \<and>
   snd (get_volume_control_for_app (player_world 0.5) 42) = Some 1 \<and>
   get_volume (player_world 0.5) unresolved_controller =
     ((player_world 0.5, unresolved_controller), 0.8) \<and>
   controls (fst (set_volume 0.3 (player_world 0.5) unresolved_controller)) 0 =
     Some \<lparr>volume = 0.3, muted = False\<rparr> \<and>
   controls (fst (set_volume 0.3 (player_world 0.5) unresolved_controller)) 1 =
     Some \<lparr>volume = 0.5, muted = False\<rparr> \<and>
   scans (fst (set_volume 0.3 (player_world 0.5) unresolved_controller)) = 0"
  using cached_none_uses_default_endpoint
    [of "player_world 0.5" 42 unresolved_controller "0.3"]
  by (simp add: player_world_def unresolved_controller_def bridge_defs)

subsection \<open>Failures of the operating system\<close>




section \<open>Properties of the doubles\<close>

lemma pow2_pos: "0 < pow2 k"
  by (simp add: pow2_def)

lemma pow2_powr: "pow2 k = 2 powr (of_int k)"
proof (cases "0 \<le> k")
  case True
  then have "2 powr (of_int k) = (2::real) powr (real (nat k))" by simp
  also have "\<dots> = 2 ^ nat k" by (simp only: powr_realpow[of 2, simplified])
  finally show ?thesis using True by (simp add: pow2_def)
next
  case False
  then have "of_int k = - real (nat (- k))" by simp
  then have "2 powr (of_int k) = 1 / (2::real) powr (real (nat (- k)))"
    by (simp only: powr_minus_divide)
  also have "\<dots> = 1 / 2 ^ nat (- k)" by (simp only: powr_realpow[of 2, simplified])
  finally show ?thesis using False by (simp add: pow2_def)
qed

lemma pow2_mono: "j \<le> k \<Longrightarrow> pow2 j \<le> pow2 k"
  by (simp add: pow2_powr)

lemma pow2_add: "pow2 (j + k) = pow2 j * pow2 k"
  by (simp add: pow2_powr powr_add)

lemma pow2_succ: "pow2 (k + 1) = 2 * pow2 k"
proof -
  have "pow2 1 = 2" by (simp add: pow2_def)
  then show ?thesis using pow2_add[of k 1] by simp
qed

text \<open>The exponent is the one of the binade that holds the number.\<close>

lemma exponent_bounds:
  "0 < x \<Longrightarrow> pow2 (exponent x) \<le> x \<and> x < pow2 (exponent x + 1)"
proof (induction x rule: exponent.induct)
  case (1 x)
  show ?case
  proof (cases "2 \<le> x")
    case True
    then have e: "exponent x = exponent (x / 2) + 1" using 1(3) by (subst exponent.simps) simp
    have ih: "pow2 (exponent (x / 2)) \<le> x / 2 \<and> x / 2 < pow2 (exponent (x / 2) + 1)"
      using 1(1)[OF _ True] 1(3) by simp
    have p: "pow2 (exponent (x / 2) + 1) = 2 * pow2 (exponent (x / 2))"
      by (rule pow2_succ)
    have q: "pow2 (exponent (x / 2) + 1 + 1) = 2 * pow2 (exponent (x / 2) + 1)"
      by (rule pow2_succ)
    show ?thesis unfolding e using ih p q by linarith
  next
    case False
    show ?thesis
    proof (cases "x < 1")
      case True
      then have e: "exponent x = exponent (x * 2) - 1"
        using 1(3) False by (subst exponent.simps) simp
      have ih: "pow2 (exponent (x * 2)) \<le> x * 2 \<and> x * 2 < pow2 (exponent (x * 2) + 1)"
        using 1(2)[OF _ False True] 1(3) by simp
      have p: "pow2 (exponent (x * 2)) = 2 * pow2 (exponent (x * 2) - 1)"
        using pow2_succ[of "exponent (x * 2) - 1"] by simp
      have q: "pow2 (exponent (x * 2) + 1) = 2 * pow2 (exponent (x * 2))"
        by (rule pow2_succ)
      have "pow2 (exponent (x * 2) - 1 + 1) = pow2 (exponent (x * 2))" by simp
      then show ?thesis unfolding e using ih p q by linarith
    next
      case F2: False
      then have e: "exponent x = 0" using 1(3) False by (subst exponent.simps) simp
      show ?thesis unfolding e using False F2 by (simp add: pow2_def)
    qed
  qed
qed

lemma round_half_even_error: "\<bar>of_int (round_half_even y) - y\<bar> \<le> 1 / 2"
proof -
  have "of_int \<lfloor>y\<rfloor> \<le> y" "y < of_int \<lfloor>y\<rfloor> + 1" by linarith+
  then show ?thesis by (auto simp: round_half_even_def Let_def)
qed

lemma round_half_even_near:
  assumes "\<bar>y - of_int m\<bar> < 1 / 2"
  shows "round_half_even y = m"
proof -
  have "\<bar>of_int (round_half_even y) - y\<bar> \<le> 1 / 2" by (rule round_half_even_error)
  then have "\<bar>(of_int (round_half_even y) :: real) - of_int m\<bar> < 1" using assms by linarith
  then have "\<bar>(of_int (round_half_even y - m) :: real)\<bar> < 1" by simp
  then have "\<bar>round_half_even y - m\<bar> < 1" by linarith
  then show ?thesis by simp
qed

lemma round_half_even_le:
  assumes "y \<le> of_int m"
  shows "round_half_even y \<le> m"
proof -
  have fm: "\<lfloor>y\<rfloor> \<le> m" using assms by (simp add: floor_le_iff)
  show ?thesis
  proof (cases "y - of_int \<lfloor>y\<rfloor> < 1 / 2")
    case True
    then show ?thesis using fm by (simp add: round_half_even_def Let_def)
  next
    case False
    then have "of_int \<lfloor>y\<rfloor> < y" by simp
    then have "(of_int \<lfloor>y\<rfloor> :: real) < of_int m" using assms by linarith
    then have "\<lfloor>y\<rfloor> < m" by simp
    then show ?thesis by (simp add: round_half_even_def Let_def)
  qed
qed

lemma round_half_even_ge:
  assumes "of_int m \<le> y"
  shows "m \<le> round_half_even y"
proof -
  have "m \<le> \<lfloor>y\<rfloor>" using assms by (simp add: le_floor_iff)
  then show ?thesis by (simp add: round_half_even_def Let_def)
qed

text \<open>Below 4 the doubles are at most \<open>2^(-51)\<close> apart, so rounding moves a number by at
  most \<open>2^(-52)\<close>.\<close>

lemma fl_error:
  assumes "\<bar>x\<bar> < 4"
  shows "\<bar>fl x - x\<bar> \<le> 1 / 2 ^ 52"
proof -
  define e where "e = max (exponent \<bar>x\<bar>) (- 1022)"
  define u where "u = pow2 (e - 52)"
  have upos: "0 < u" by (simp add: u_def pow2_pos)
  have e1: "exponent \<bar>x\<bar> \<le> 1"
  proof (cases "x = 0")
    case True
    then show ?thesis by (simp add: exponent.simps)
  next
    case False
    then have "pow2 (exponent \<bar>x\<bar>) \<le> \<bar>x\<bar>" using exponent_bounds[of "\<bar>x\<bar>"] by simp
    then have "pow2 (exponent \<bar>x\<bar>) < pow2 2" using assms by (simp add: pow2_def)
    then have "exponent \<bar>x\<bar> < 2"
      using pow2_mono[of 2 "exponent \<bar>x\<bar>"] by (cases "2 \<le> exponent \<bar>x\<bar>") auto
    then show ?thesis by simp
  qed
  then have "e \<le> 1" by (simp add: e_def)
  then have "u \<le> pow2 (- 51)" unfolding u_def by (intro pow2_mono) simp
  then have u51: "u \<le> 1 / 2 ^ 51" by (simp add: pow2_def)
  have f: "fl x = of_int (round_half_even (x / u)) * u"
    by (simp add: fl_def Let_def u_def e_def)
  have "\<bar>of_int (round_half_even (x / u)) - x / u\<bar> \<le> 1 / 2" by (rule round_half_even_error)
  then have "\<bar>of_int (round_half_even (x / u)) - x / u\<bar> * u \<le> 1 / 2 * u"
    using upos by (intro mult_right_mono) simp_all
  moreover have "\<bar>of_int (round_half_even (x / u)) - x / u\<bar> * u = \<bar>fl x - x\<bar>"
  proof -
    have "\<bar>of_int (round_half_even (x / u)) - x / u\<bar> * u =
          \<bar>(of_int (round_half_even (x / u)) - x / u) * u\<bar>"
      using upos by (simp add: abs_mult)
    also have "(of_int (round_half_even (x / u)) - x / u) * u = fl x - x"
      using upos by (simp add: f field_simps)
    finally show ?thesis .
  qed
  ultimately have "\<bar>fl x - x\<bar> \<le> 1 / 2 * u" by simp
  then show ?thesis using u51 by simp
qed

lemma fl_nonneg:
  assumes "0 \<le> x"
  shows "0 \<le> fl x"
proof -
  define u where "u = pow2 (max (exponent \<bar>x\<bar>) (- 1022) - 52)"
  have upos: "0 < u" by (simp add: u_def pow2_pos)
  have "of_int 0 \<le> x / u" using assms upos by simp
  then have "0 \<le> round_half_even (x / u)" by (rule round_half_even_ge)
  then show ?thesis using upos by (simp add: fl_def Let_def u_def[symmetric])
qed

lemma fl_le_one:
  assumes "x \<le> 1"
  shows "fl x \<le> 1"
proof -
  define e where "e = max (exponent \<bar>x\<bar>) (- 1022)"
  define u where "u = pow2 (e - 52)"
  have upos: "0 < u" by (simp add: u_def pow2_pos)
  have f: "fl x = of_int (round_half_even (x / u)) * u"
    by (simp add: fl_def Let_def u_def e_def)
  show ?thesis
  proof (cases "x \<le> 0")
    case True
    then have "x / u \<le> of_int 0" using upos by (simp add: divide_le_0_iff)
    then have "round_half_even (x / u) \<le> 0" by (rule round_half_even_le)
    then have "of_int (round_half_even (x / u)) * u \<le> 0"
      using upos by (simp add: mult_le_0_iff)
    then show ?thesis using f by simp
  next
    case False
    then have pos: "0 < x" by simp
    have "pow2 (exponent \<bar>x\<bar>) \<le> 1" using exponent_bounds[of "\<bar>x\<bar>"] pos assms by simp
    then have "exponent \<bar>x\<bar> \<le> 0"
      using pow2_mono[of 1 "exponent \<bar>x\<bar>"]
      by (cases "1 \<le> exponent \<bar>x\<bar>") (auto simp: pow2_def)
    then have e0: "e \<le> 0" by (simp add: e_def)
    define n where "n = nat (52 - e)"
    have u: "u = 1 / 2 ^ n" using e0 by (simp add: u_def pow2_def n_def)
    have "x / u \<le> of_int (2 ^ n)" using assms u by simp
    then have "round_half_even (x / u) \<le> 2 ^ n" by (rule round_half_even_le)
    then have "(of_int (round_half_even (x / u)) :: real) \<le> 2 ^ n"
      using of_int_le_iff[of "round_half_even (x / u)" "2 ^ n", where ?'a = real] by simp
    then have "of_int (round_half_even (x / u)) * u \<le> 2 ^ n * u"
      using upos by (intro mult_right_mono) simp_all
    then show ?thesis using f u by simp
  qed
qed

lemma py_round_ge_zero: "0 \<le> x \<Longrightarrow> 0 \<le> py_round x 2"
proof -
  assume "0 \<le> x"
  then have "of_int 0 \<le> x * 10 ^ 2" by simp
  then have "0 \<le> round_half_even (x * 10 ^ 2)" by (rule round_half_even_ge)
  then have "0 \<le> (of_int (round_half_even (x * 10 ^ 2)) :: real) / 10 ^ 2" by simp
  then show ?thesis unfolding py_round_def by (rule fl_nonneg)
qed

lemma py_round_le_one: "x \<le> 1 \<Longrightarrow> py_round x 2 \<le> 1"
proof -
  assume "x \<le> 1"
  then have "x * 10 ^ 2 \<le> of_int 100" by simp
  then have "round_half_even (x * 10 ^ 2) \<le> 100" by (rule round_half_even_le)
  then have "(of_int (round_half_even (x * 10 ^ 2)) :: real) \<le> 100" by linarith
  then have "(of_int (round_half_even (x * 10 ^ 2)) :: real) / 10 ^ 2 \<le> 1" by simp
  then show ?thesis unfolding py_round_def by (rule fl_le_one)
qed

lemma three_roundings:
  fixes a c s x y e :: real
  assumes "\<bar>a - x\<bar> \<le> e" and "\<bar>c - y\<bar> \<le> e" and "\<bar>s - (a + c)\<bar> \<le> e"
    and "300 * e < 1 / 2" and "(x + y) * 100 = of_int m"
  shows "\<bar>s * 100 - of_int m\<bar> < 1 / 2"
proof -
  have lo: "- (3 * e) \<le> s - (x + y)" and hi: "s - (x + y) \<le> 3 * e"
    using assms(1-3) by linarith+
  have m: "of_int m = x * 100 + y * 100" using assms(5) by (simp add: algebra_simps)
  have "s * 100 - (x * 100 + y * 100) < 1 / 2" using hi assms(4) by linarith
  moreover have "- (s * 100 - (x * 100 + y * 100)) < 1 / 2" using lo assms(4) by linarith
  ultimately show ?thesis unfolding m abs_less_iff by (intro conjI)
qed

text \<open>From the double nearest to \<open>n\<close> hundredths, adding or subtracting the double 0.05 and
  rounding to two places gives the double nearest to \<open>n + 5\<close> or \<open>n - 5\<close> hundredths: the
  three roundings move the sum too little to reach another hundredth.\<close>

lemma round_step_hundredths:
  assumes "0 \<le> n" and "n \<le> 100"
  shows "py_round (fl (fl (of_int n / 100) + fl 0.05)) 2 = fl (of_int (n + 5) / 100)"
    and "py_round (fl (fl (of_int n / 100) - fl 0.05)) 2 = fl (of_int (n - 5) / 100)"
proof -
  define e :: real where "e = 1 / 2 ^ 52"
  define x :: real where "x = of_int n / 100"
  define y :: real where "y = 0.05"
  have e_small: "300 * e < 1 / 2" and e_milli: "e \<le> 1 / 1000" by (simp_all add: e_def)
  have x0: "0 \<le> x" and x1: "x \<le> 1" using assms by (simp_all add: x_def)
  have a: "\<bar>fl x - x\<bar> \<le> e"
    unfolding e_def using x0 x1 by (intro fl_error) simp
  have c: "\<bar>fl y - y\<bar> \<le> e"
    unfolding e_def by (intro fl_error) (simp add: y_def)
  have c': "\<bar>- fl y - (- y)\<bar> \<le> e" using c by simp
  have y_val: "y = 1 / 20" by (simp add: y_def)
  have sp: "\<bar>fl x + fl y\<bar> < 4" using a c x0 x1 e_milli y_val by linarith
  have sm: "\<bar>fl x - fl y\<bar> < 4" using a c x0 x1 e_milli y_val by linarith
  have ep: "\<bar>fl (fl x + fl y) - (fl x + fl y)\<bar> \<le> e"
    unfolding e_def by (rule fl_error[OF sp])
  have em: "\<bar>fl (fl x - fl y) - (fl x + (- fl y))\<bar> \<le> e"
    unfolding e_def using fl_error[OF sm] by simp
  have tp: "(x + y) * 100 = of_int (n + 5)" by (simp add: x_def y_def)
  have tm: "(x + (- y)) * 100 = of_int (n - 5)" by (simp add: x_def y_def)
  have "\<bar>fl (fl x + fl y) * 100 - of_int (n + 5)\<bar> < 1 / 2"
    by (rule three_roundings[OF a c ep e_small tp])
  then have "round_half_even (fl (fl x + fl y) * 100) = n + 5"
    by (rule round_half_even_near)
  then show "py_round (fl (fl (of_int n / 100) + fl 0.05)) 2 = fl (of_int (n + 5) / 100)"
    by (simp add: py_round_def x_def y_def)
  have "\<bar>fl (fl x - fl y) * 100 - of_int (n - 5)\<bar> < 1 / 2"
    by (rule three_roundings[OF a c' em e_small tm])
  then have "round_half_even (fl (fl x - fl y) * 100) = n - 5"
    by (rule round_half_even_near)
  then show "py_round (fl (fl (of_int n / 100) - fl 0.05)) 2 = fl (of_int (n - 5) / 100)"
    by (simp add: py_round_def x_def y_def)
qed

lemmas double_defs = py_round_def fl_def exponent.simps pow2_def round_half_even_def Let_def

text \<open>The arithmetic on some inputs: the sum of the doubles 0.1 and 0.2 is not the
  double 0.3; the sum of 0.125 and 0.05 lies below 0.175 and rounds to 0.17; the
  difference of 0.375 and 0.05 lies above 0.325 and rounds to 0.33.\<close>

lemma double_examples:
  "fl (fl 0.1 + fl 0.2) \<noteq> fl 0.3"
  "fl 0.5 = 0.5"
  "py_round (fl (0.125 + fl 0.05)) 2 = fl 0.17"
  "py_round (fl (0.375 - fl 0.05)) 2 = fl 0.33"
  by (simp_all add: double_defs)

section \<open>Properties of the hotkey callbacks\<close>

subsection \<open>Every write is clamped\<close>

lemma in_unit_cong: "controls w' = controls w \<Longrightarrow> in_unit w' h = in_unit w h"
  by (simp add: in_unit_def)

lemma set_volume_in_unit: "in_unit w h \<Longrightarrow> in_unit (fst (set_volume level w c)) h"
proof (cases w rule: pid_cases)
  case (1 pid)
  assume iu: "in_unit w h"
  obtain w1 c1 where r: "refresh pid w c = (w1, c1)" by (cases "refresh pid w c")
  have cw: "controls w1 = controls w" using refresh_world(1)[of pid w c] r by simp
  show ?thesis
    using set_volume_eq[OF 1, of level c] r cw iu
    by (auto simp: in_unit_def clamp_def split: option.splits)
next
  case 2
  assume iu: "in_unit w h"
  from no_pid(1)[OF 2] iu show ?thesis by simp
qed

lemma get_volume_controls: "controls (fst (fst (get_volume w c))) = controls w"
proof (cases w rule: pid_cases)
  case (1 pid)
  show ?thesis using get_volume_eq[OF 1, of c] by simp
next
  case 2
  from no_pid(3)[OF 2] show ?thesis by simp
qed

lemma toggle_mute_in_unit: "in_unit w h \<Longrightarrow> in_unit (fst (toggle_mute w c)) h"
proof (cases w rule: pid_cases)
  case (1 pid)
  assume iu: "in_unit w h"
  obtain w1 c1 where r: "refresh pid w c = (w1, c1)" by (cases "refresh pid w c")
  have cw: "controls w1 = controls w" using refresh_world(1)[of pid w c] r by simp
  show ?thesis
    using toggle_mute_eq[OF 1, of c] r cw iu
    by (auto simp: in_unit_def split: option.splits)
next
  case 2
  assume iu: "in_unit w h"
  from no_pid(2)[OF 2] iu show ?thesis by simp
qed

lemma os_volume_up:
  "os (volume_up th a) =
     fst (set_volume (min 1 (py_round (fl (snd (get_volume (os a) (audio a)) + fl 0.05)) 2))
            (fst (fst (get_volume (os a) (audio a)))) (snd (fst (get_volume (os a) (audio a)))))"
  by (simp add: volume_up_def Let_def split: prod.splits)

lemma os_volume_down:
  "os (volume_down th a) =
     fst (set_volume (max 0 (py_round (fl (snd (get_volume (os a) (audio a)) - fl 0.05)) 2))
            (fst (fst (get_volume (os a) (audio a)))) (snd (fst (get_volume (os a) (audio a)))))"
  by (simp add: volume_down_def Let_def split: prod.splits)

lemma press_in_unit: "in_unit (os a) h \<Longrightarrow> in_unit (os (press th key a)) h"
proof (cases key)
  case VolumeUp
  assume "in_unit (os a) h"
  then have "in_unit (fst (fst (get_volume (os a) (audio a)))) h"
    using in_unit_cong[OF get_volume_controls] by simp
  then show ?thesis unfolding VolumeUp press.simps os_volume_up by (rule set_volume_in_unit)
next
  case VolumeDown
  assume "in_unit (os a) h"
  then have "in_unit (fst (fst (get_volume (os a) (audio a)))) h"
    using in_unit_cong[OF get_volume_controls] by simp
  then show ?thesis unfolding VolumeDown press.simps os_volume_down by (rule set_volume_in_unit)
next
  case Mute
  assume "in_unit (os a) h"
  then show ?thesis unfolding Mute
    using toggle_mute_in_unit[of "os a" h "audio a"]
    by (auto simp add: app_toggle_mute_def split: prod.splits)
next
  case SwitchApp
  assume "in_unit (os a) h"
  then show ?thesis unfolding SwitchApp by (simp add: switch_app_def)
next
  case TestHotkey
  assume "in_unit (os a) h"
  then show ?thesis unfolding TestHotkey by (simp add: test_hotkey_def)
qed

lemma presses_in_unit: "in_unit (os a) h \<Longrightarrow> in_unit (os (presses th ks a)) h"
  by (induction ks arbitrary: a) (simp_all add: press_in_unit)

lemma step_written:
  assumes "foreground w = Some pid" and "pid \<noteq> 0"
    and "target (snd (refresh pid w c)) = Some h" and "controls w h = Some k"
  shows "controls (fst (set_volume new_volume (fst (fst (get_volume w c)))
                          (snd (fst (get_volume w c))))) h =
           Some (k\<lparr>volume := clamp new_volume 0 1\<rparr>) \<and>
         snd (get_volume w c) = volume k"
proof -
  obtain w1 c1 where r: "refresh pid w c = (w1, c1)" by (cases "refresh pid w c")
  have g: "get_volume w c = ((w1, c1), volume k)"
    using get_volume_eq[OF assms(1,2), of c] r assms(3,4) by simp
  have fg1: "foreground w1 = Some pid" using refresh_world(2)[of pid w c] r assms(1) by simp
  have pid1: "current_pid c1 = Some pid" using refresh_controller(1)[of pid w c] r by simp
  have cw: "controls w1 = controls w" using refresh_world(1)[of pid w c] r by simp
  have t: "target c1 = Some h" using assms(3) r by simp
  show ?thesis
    using set_volume_hit[OF fg1 assms(2) pid1, of new_volume] g t cw assms(4) by simp
qed

lemma volume_up_written:
  assumes "foreground (os a) = Some pid" and "pid \<noteq> 0"
    and "target (snd (refresh pid (os a) (audio a))) = Some h"
    and "controls (os a) h = Some k"
  shows "controls (os (volume_up th a)) h =
           Some (k\<lparr>volume := clamp (min 1 (py_round (fl (volume k + fl 0.05)) 2)) 0 1\<rparr>)"
  unfolding os_volume_up
  using step_written[OF assms, of "min 1 (py_round (fl (volume k + fl 0.05)) 2)"] by simp

lemma volume_down_written:
  assumes "foreground (os a) = Some pid" and "pid \<noteq> 0"
    and "target (snd (refresh pid (os a) (audio a))) = Some h"
    and "controls (os a) h = Some k"
  shows "controls (os (volume_down th a)) h =
           Some (k\<lparr>volume := clamp (max 0 (py_round (fl (volume k - fl 0.05)) 2)) 0 1\<rparr>)"
  unfolding os_volume_down
  using step_written[OF assms, of "max 0 (py_round (fl (volume k - fl 0.05)) 2)"] by simp

lemma player_app_facts:
  "foreground (os (player_app v)) = Some 42"
  "target (snd (refresh 42 (os (player_app v)) (audio (player_app v)))) = Some 1"
  "controls (os (player_app v)) 1 = Some \<lparr>volume = v, muted = False\<rparr>"
  "calls (player_app v) = []"
  "single_shots (player_app v) = []"
  by (simp_all add: player_app_def player_world_def bridge_defs)

subsection \<open>The step of volume-up and volume-down\<close>

text \<open>
  Claim C2 says that one volume-up moves a stored level \<open>v\<close> of the unit interval to
  exactly \<open>v + 0.05\<close>, saturated at 1. The callback rounds the sum to two decimals
  before it saturates: from the double 0.333 it stores the double 0.38, which is not the
  sum of the doubles 0.333 and 0.05 and lies less than 0.048 above the level before.
\<close>

theorem volume_up_not_exact_step:
  "controls (os (player_app (fl 0.333))) 1 = Some \<lparr>volume = fl 0.333, muted = False\<rparr> \<and>
   controls (os (volume_up ListenerThread (player_app (fl 0.333)))) 1 =
     Some \<lparr>volume = fl 0.38, muted = False\<rparr> \<and>
   controls (os (volume_up ListenerThread (player_app (fl 0.333)))) 1 \<noteq>
     Some \<lparr>volume = min 1 (fl (fl 0.333 + fl 0.05)), muted = False\<rparr> \<and>
   fl 0.38 - fl 0.333 < 0.048"
proof -
  have nz: "(42 :: int) \<noteq> 0" by simp
  have "controls (os (volume_up ListenerThread (player_app (fl 0.333)))) 1 =
          Some (\<lparr>volume = fl 0.333, muted = False\<rparr>
                  \<lparr>volume := clamp (min 1 (py_round (fl (fl 0.333 + fl 0.05)) 2)) 0 1\<rparr>)"
    using volume_up_written[OF player_app_facts(1)[of "fl 0.333"] nz
        player_app_facts(2,3)[of "fl 0.333"], of ListenerThread]
    by simp
  then have stored: "controls (os (volume_up ListenerThread (player_app (fl 0.333)))) 1 =
               Some \<lparr>volume = fl 0.38, muted = False\<rparr>"
    by (simp add: double_defs clamp_def)
  have differs: "fl 0.38 \<noteq> min 1 (fl (fl 0.333 + fl 0.05))" by (simp add: double_defs)
  have margin: "fl 0.38 - fl 0.333 < 0.048" by (simp add: double_defs)
  show ?thesis using stored differs margin player_app_facts(3)[of "fl 0.333"] by simp
qed

text \<open>
  Claim C2, amended. With a foreground process and a live control behind it whose level
  \<open>v\<close> lies in the unit interval, one volume-up stores \<^verbatim>\<open>round(v + 0.05, 2)\<close> saturated at
  1, and one volume-down stores \<^verbatim>\<open>round(v - 0.05, 2)\<close> saturated at 0, the sum, the
  difference and the rounding being those of Python's doubles. When \<open>v\<close> is the double
  of \<open>n\<close> hundredths, these are the doubles of \<open>n + 5\<close> and \<open>n - 5\<close> hundredths, saturated.
  Under any sequence of key presses the level stays in the unit interval.
\<close>

theorem volume_step:
  assumes "foreground (os a) = Some pid" and "pid \<noteq> 0"
    and "target (snd (refresh pid (os a) (audio a))) = Some h"
    and "controls (os a) h = Some k"
    and "0 \<le> volume k" and "volume k \<le> 1"
  shows "controls (os (volume_up th a)) h =
           Some (k\<lparr>volume := min 1 (py_round (fl (volume k + fl 0.05)) 2)\<rparr>) \<and>
         controls (os (volume_down th a)) h =
           Some (k\<lparr>volume := max 0 (py_round (fl (volume k - fl 0.05)) 2)\<rparr>) \<and>
         (0 \<le> n \<and> n \<le> 100 \<and> volume k = fl (of_int n / 100) \<longrightarrow>
            controls (os (volume_up th a)) h =
              Some (k\<lparr>volume := min 1 (fl (of_int (n + 5) / 100))\<rparr>) \<and>
            controls (os (volume_down th a)) h =
              Some (k\<lparr>volume := max 0 (fl (of_int (n - 5) / 100))\<rparr>)) \<and>
         in_unit (os (presses th ks a)) h"
proof -
  have c0: "0 \<le> fl 0.05" by (rule fl_nonneg) simp
  have "0 \<le> fl (volume k + fl 0.05)" using assms(5) c0 by (intro fl_nonneg) simp
  then have up0: "0 \<le> py_round (fl (volume k + fl 0.05)) 2" by (rule py_round_ge_zero)
  have "fl (volume k - fl 0.05) \<le> 1" using assms(6) c0 by (intro fl_le_one) simp
  then have dn1: "py_round (fl (volume k - fl 0.05)) 2 \<le> 1" by (rule py_round_le_one)
  have cu: "clamp (min 1 (py_round (fl (volume k + fl 0.05)) 2)) 0 1 =
              min 1 (py_round (fl (volume k + fl 0.05)) 2)"
    using up0 by (simp add: clamp_def)
  have cd: "clamp (max 0 (py_round (fl (volume k - fl 0.05)) 2)) 0 1 =
              max 0 (py_round (fl (volume k - fl 0.05)) 2)"
    using dn1 by (simp add: clamp_def)
  have up: "controls (os (volume_up th a)) h =
              Some (k\<lparr>volume := min 1 (py_round (fl (volume k + fl 0.05)) 2)\<rparr>)"
    using volume_up_written[OF assms(1-4)] cu by simp
  have down: "controls (os (volume_down th a)) h =
                Some (k\<lparr>volume := max 0 (py_round (fl (volume k - fl 0.05)) 2)\<rparr>)"
    using volume_down_written[OF assms(1-4)] cd by simp
  have ex: "0 \<le> n \<and> n \<le> 100 \<and> volume k = fl (of_int n / 100) \<Longrightarrow>
      py_round (fl (volume k + fl 0.05)) 2 = fl (of_int (n + 5) / 100) \<and>
      py_round (fl (volume k - fl 0.05)) 2 = fl (of_int (n - 5) / 100)"
    using round_step_hundredths[of n] by simp
  have iu: "in_unit (os a) h" using assms(4-6) by (simp add: in_unit_def)
  show ?thesis using up down ex presses_in_unit[OF iu, of th ks] by auto
qed

text \<open>From the level 0.5, the double of 50 hundredths, volume-up stores the double of 55
  hundredths and volume-down the double of 45.\<close>

theorem volume_step_witness:
  "foreground (os (player_app 0.5)) = Some 42 \<and>
   target (snd (refresh 42 (os (player_app 0.5)) (audio (player_app 0.5)))) = Some 1 \<and>
   controls (os (player_app 0.5)) 1 = Some \<lparr>volume = 0.5, muted = False\<rparr> \<and>
   (0 :: int) \<le> 50 \<and> (50 :: int) \<le> 100 \<and> 0.5 = fl (of_int 50 / 100) \<and>
   controls (os (volume_up ListenerThread (player_app 0.5))) 1 =
     Some \<lparr>volume = fl 0.55, muted = False\<rparr> \<and>
   controls (os (volume_down ListenerThread (player_app 0.5))) 1 =
     Some \<lparr>volume = fl 0.45, muted = False\<rparr> \<and>
   in_unit (os (presses ListenerThread [VolumeUp, Mute, VolumeDown] (player_app 0.5))) 1"
proof -
  have nz: "(42 :: int) \<noteq> 0" by simp
  have lo: "0 \<le> volume \<lparr>volume = 0.5, muted = False\<rparr>" by simp
  have hi: "volume \<lparr>volume = 0.5, muted = False\<rparr> \<le> 1" by simp
  have half: "fl (of_int 50 / 100) = (0.5 :: real)" by (simp add: double_defs)
  have prem: "(0 :: int) \<le> 50 \<and> (50 :: int) \<le> 100 \<and>
              volume \<lparr>volume = 0.5, muted = False\<rparr> = fl (of_int 50 / 100)"
    using half by simp
  have v55: "min 1 (fl (11 / 20)) = fl (11 / 20)" and v45: "max 0 (fl (9 / 20)) = fl (9 / 20)"
    by (simp_all add: double_defs)
  have step:
    "controls (os (volume_up ListenerThread (player_app 0.5))) 1 =
       Some (\<lparr>volume = 0.5, muted = False\<rparr>\<lparr>volume := min 1 (fl (of_int (50 + 5) / 100))\<rparr>) \<and>
     controls (os (volume_down ListenerThread (player_app 0.5))) 1 =
       Some (\<lparr>volume = 0.5, muted = False\<rparr>\<lparr>volume := max 0 (fl (of_int (50 - 5) / 100))\<rparr>) \<and>
     in_unit (os (presses ListenerThread [VolumeUp, Mute, VolumeDown] (player_app 0.5))) 1"
    using volume_step [OF player_app_facts(1)[of "0.5"] nz
        player_app_facts(2,3)[of "0.5"] lo hi, where n = 50 and th = ListenerThread
        and ks = "[VolumeUp, Mute, VolumeDown]"] prem
    by blast
  have fifty: "(0 :: int) \<le> 50 \<and> (50 :: int) \<le> 100" by simp
  show ?thesis
    using step player_app_facts(1-3)[of "0.5"] half fifty v55 v45 by simp
qed

subsection \<open>What runs on the thread of the callback\<close>

lemma calls_of_callbacks:
  "calls (volume_up th a) =
     calls a @ [(th, CallGetVolume),
                (th, CallSetVolume
                       (min 1 (py_round (fl (snd (get_volume (os a) (audio a)) + fl 0.05)) 2)))]"
  "calls (volume_down th a) =
     calls a @ [(th, CallGetVolume),
                (th, CallSetVolume
                       (max 0 (py_round (fl (snd (get_volume (os a) (audio a)) - fl 0.05)) 2)))]"
  "calls (app_toggle_mute th a) = calls a @ [(th, CallToggleMute)]"
  "calls (switch_app th a) = calls a @ [(th, CallAltTab)]"
  by (simp_all add: volume_up_def volume_down_def app_toggle_mute_def switch_app_def Let_def
      split: prod.splits)

lemma single_shots_of_callbacks:
  "single_shots (volume_up th a) = single_shots a @ [(th, SafeShowOverlay)]"
  "single_shots (volume_down th a) = single_shots a @ [(th, SafeShowOverlay)]"
  "single_shots (app_toggle_mute th a) = single_shots a @ [(th, SafeShowOverlay)]"
  "single_shots (switch_app th a) =
     single_shots a @ (if alt_tab_ok a then [(th, SafeShowOverlay)] else [])"
  by (simp_all add: volume_up_def volume_down_def app_toggle_mute_def switch_app_def Let_def
      split: prod.splits)

lemma alt_tab_ok_kept:
  "alt_tab_ok (volume_up th a) = alt_tab_ok a"
  "alt_tab_ok (volume_down th a) = alt_tab_ok a"
  "alt_tab_ok (app_toggle_mute th a) = alt_tab_ok a"
  by (simp_all add: volume_up_def volume_down_def app_toggle_mute_def Let_def
      split: prod.splits)

lemma player_app_current:
  "snd (get_volume (os (player_app v)) (audio (player_app v))) = v"
  "alt_tab_ok (player_app v)"
  by (simp_all add: player_app_def player_world_def bridge_defs)

lemma press_trace:
  assumes "key \<noteq> TestHotkey"
  shows "\<exists>new shots.
           calls (press th key a) = calls a @ new \<and>
           single_shots (press th key a) = single_shots a @ shots \<and>
           new \<noteq> [] \<and> length shots \<le> 1 \<and>
           (\<forall>(t, c) \<in> set new. t = th \<and> \<not> ui_call c) \<and>
           (\<forall>(t, task) \<in> set shots. t = th)"
proof (cases key)
  case VolumeUp
  show ?thesis unfolding VolumeUp
    by (simp add: volume_up_def Let_def split: prod.splits)
next
  case VolumeDown
  show ?thesis unfolding VolumeDown
    by (simp add: volume_down_def Let_def split: prod.splits)
next
  case Mute
  show ?thesis unfolding Mute
    by (simp add: app_toggle_mute_def split: prod.splits)
next
  case SwitchApp
  show ?thesis unfolding SwitchApp
    by (simp add: switch_app_def)
next
  case TestHotkey
  then show ?thesis using assms by simp
qed

lemma presses_trace:
  assumes "TestHotkey \<notin> set ks"
  shows "\<exists>new shots.
           calls (presses th ks a) = calls a @ new \<and>
           single_shots (presses th ks a) = single_shots a @ shots \<and>
           length ks \<le> length new \<and> length shots \<le> length ks \<and>
           (\<forall>(t, c) \<in> set new. t = th \<and> \<not> ui_call c) \<and>
           (\<forall>(t, task) \<in> set shots. t = th)"
  using assms
proof (induction ks arbitrary: a)
  case Nil
  show ?case by simp
next
  case (Cons key ks)
  then have k: "key \<noteq> TestHotkey" and ks: "TestHotkey \<notin> set ks" by auto
  obtain n1 s1 where 1:
    "calls (press th key a) = calls a @ n1"
    "single_shots (press th key a) = single_shots a @ s1"
    "n1 \<noteq> []" "length s1 \<le> 1"
    "\<forall>(t, c) \<in> set n1. t = th \<and> \<not> ui_call c"
    "\<forall>(t, task) \<in> set s1. t = th"
    using press_trace[OF k, of th a] by blast
  obtain n2 s2 where 2:
    "calls (presses th ks (press th key a)) = calls (press th key a) @ n2"
    "single_shots (presses th ks (press th key a)) = single_shots (press th key a) @ s2"
    "length ks \<le> length n2" "length s2 \<le> length ks"
    "\<forall>(t, c) \<in> set n2. t = th \<and> \<not> ui_call c"
    "\<forall>(t, task) \<in> set s2. t = th"
    using Cons.IH[OF ks, of "press th key a"] by blast
  have len1: "1 \<le> length n1" using 1(3) by (cases n1) simp_all
  show ?case
  proof (intro exI conjI)
    show "calls (presses th (key # ks) a) = calls a @ (n1 @ n2)" using 1(1) 2(1) by simp
    show "single_shots (presses th (key # ks) a) = single_shots a @ (s1 @ s2)"
      using 1(2) 2(2) by simp
    show "length (key # ks) \<le> length (n1 @ n2)" using len1 2(3) by simp
    show "length (s1 @ s2) \<le> length (key # ks)" using 1(4) 2(4) by simp
    show "\<forall>(t, c) \<in> set (n1 @ n2). t = th \<and> \<not> ui_call c" using 1(5) 2(5) by auto
    show "\<forall>(t, task) \<in> set (s1 @ s2). t = th" using 1(6) 2(6) by auto
  qed
qed

text \<open>The state of the audio controller and of the controls after a callback is the one
  that the calls of the controller leave: the callback has made them when it returns.\<close>

lemma callbacks_call_the_controller:
  "(os (app_toggle_mute th a), audio (app_toggle_mute th a)) = toggle_mute (os a) (audio a)"
  "(os (volume_up th a), audio (volume_up th a)) =
      (case get_volume (os a) (audio a) of
         ((w1, c1), current) \<Rightarrow>
           set_volume (min 1 (py_round (fl (current + fl 0.05)) 2)) w1 c1)"
  "(os (volume_down th a), audio (volume_down th a)) =
      (case get_volume (os a) (audio a) of
         ((w1, c1), current) \<Rightarrow>
           set_volume (max 0 (py_round (fl (current - fl 0.05)) 2)) w1 c1)"
  "os (switch_app th a) = os a" "os (test_hotkey th a) = os a"
  by (simp_all add: volume_up_def volume_down_def app_toggle_mute_def switch_app_def
      test_hotkey_def Let_def split: prod.splits)

text \<open>
  Claim C9 says that every side effect of a hotkey callback, the volume change included,
  is handed to the thread of the user interface, and that no call to the audio sessions
  happens on the listener thread. The callbacks call the audio controller themselves:
  when \<^verbatim>\<open>volume_up\<close> has run on the listener thread, the calls \<^verbatim>\<open>get_volume\<close> and
  \<^verbatim>\<open>set_volume\<close> have been made on that thread and the level of the control has changed.
\<close>

theorem volume_change_not_deferred:
  "calls (on_hotkeys [VolumeUp] (player_app 0.5)) =
     [(ListenerThread, CallGetVolume), (ListenerThread, CallSetVolume (fl 0.55))] \<and>
   controls (os (player_app 0.5)) 1 = Some \<lparr>volume = 0.5, muted = False\<rparr> \<and>
   controls (os (on_hotkeys [VolumeUp] (player_app 0.5))) 1 =
     Some \<lparr>volume = fl 0.55, muted = False\<rparr> \<and>
   controls (os (on_hotkeys [VolumeUp] (player_app 0.5))) 1 \<noteq> controls (os (player_app 0.5)) 1"
proof -
  have nz: "(42 :: int) \<noteq> 0" by simp
  have rounded: "min 1 (py_round (fl (0.5 + fl 0.05)) 2) = fl 0.55"
    by (simp add: double_defs)
  have moved: "fl 0.55 \<noteq> 0.5" by (simp add: double_defs)
  have "controls (os (volume_up ListenerThread (player_app 0.5))) 1 =
          Some (\<lparr>volume = 0.5, muted = False\<rparr>
                  \<lparr>volume := clamp (min 1 (py_round (fl (0.5 + fl 0.05)) 2)) 0 1\<rparr>)"
    using volume_up_written[OF player_app_facts(1)[of "0.5"] nz
        player_app_facts(2,3)[of "0.5"], of ListenerThread]
    by simp
  then have level: "controls (os (on_hotkeys [VolumeUp] (player_app 0.5))) 1 =
               Some \<lparr>volume = fl 0.55, muted = False\<rparr>"
    by (simp add: on_hotkeys_def double_defs clamp_def)
  have made: "calls (on_hotkeys [VolumeUp] (player_app 0.5)) =
     [(ListenerThread, CallGetVolume),
      (ListenerThread, CallSetVolume (min 1 (py_round (fl (0.5 + fl 0.05)) 2)))]"
    unfolding on_hotkeys_def presses.simps press.simps calls_of_callbacks
      player_app_current player_app_facts(4)
    by simp
  show ?thesis
    unfolding made level rounded using player_app_facts(3)[of "0.5"] moved by simp
qed

text \<open>
  Claim C9, amended. The callbacks \<^verbatim>\<open>volume_up\<close>, \<^verbatim>\<open>volume_down\<close>, \<^verbatim>\<open>toggle_mute\<close> and
  \<^verbatim>\<open>switch_app\<close> make their calls to the audio controller and to the key injection
  themselves, on the thread that runs the callback, which is the listener thread for a
  hotkey: they are not deferred, and the state that the controller's calls leave is
  there when the callback returns. These callbacks make no call to the overlay or to the
  tray icon themselves; for the overlay they issue, from that same thread, at most one
  \<^verbatim>\<open>QTimer.singleShot(0, self.safe_show_overlay)\<close> each. So after any sequence of such
  key presses, every call made is a call of the callback's thread that does not touch
  the user interface, there is at least one for each press, and the requests to show
  the overlay are with the timer.
\<close>

theorem callbacks_on_calling_thread:
  assumes "TestHotkey \<notin> set ks"
  shows "(\<exists>new shots.
            calls (on_hotkeys ks a) = calls a @ new \<and>
            single_shots (on_hotkeys ks a) = single_shots a @ shots \<and>
            length ks \<le> length new \<and> length shots \<le> length ks \<and>
            (\<forall>(t, c) \<in> set new. t = ListenerThread \<and> \<not> ui_call c) \<and>
            (\<forall>(t, task) \<in> set shots. t = ListenerThread)) \<and>
         (os (on_hotkeys [Mute] a), audio (on_hotkeys [Mute] a)) =
           toggle_mute (os a) (audio a) \<and>
         (os (on_hotkeys [VolumeUp] a), audio (on_hotkeys [VolumeUp] a)) =
           (case get_volume (os a) (audio a) of
              ((w1, c1), current) \<Rightarrow>
                set_volume (min 1 (py_round (fl (current + fl 0.05)) 2)) w1 c1) \<and>
         (os (on_hotkeys [VolumeDown] a), audio (on_hotkeys [VolumeDown] a)) =
           (case get_volume (os a) (audio a) of
              ((w1, c1), current) \<Rightarrow>
                set_volume (max 0 (py_round (fl (current - fl 0.05)) 2)) w1 c1)"
proof -
  have trace: "\<exists>new shots.
            calls (on_hotkeys ks a) = calls a @ new \<and>
            single_shots (on_hotkeys ks a) = single_shots a @ shots \<and>
            length ks \<le> length new \<and> length shots \<le> length ks \<and>
            (\<forall>(t, c) \<in> set new. t = ListenerThread \<and> \<not> ui_call c) \<and>
            (\<forall>(t, task) \<in> set shots. t = ListenerThread)"
    unfolding on_hotkeys_def using assms by (rule presses_trace)
  have direct:
    "(os (on_hotkeys [Mute] a), audio (on_hotkeys [Mute] a)) = toggle_mute (os a) (audio a)"
    "(os (on_hotkeys [VolumeUp] a), audio (on_hotkeys [VolumeUp] a)) =
       (case get_volume (os a) (audio a) of
          ((w1, c1), current) \<Rightarrow>
            set_volume (min 1 (py_round (fl (current + fl 0.05)) 2)) w1 c1)"
    "(os (on_hotkeys [VolumeDown] a), audio (on_hotkeys [VolumeDown] a)) =
       (case get_volume (os a) (audio a) of
          ((w1, c1), current) \<Rightarrow>
            set_volume (max 0 (py_round (fl (current - fl 0.05)) 2)) w1 c1)"
    unfolding on_hotkeys_def presses.simps press.simps
    by (rule callbacks_call_the_controller)+
  show ?thesis using trace direct by (intro conjI)
qed

text \<open>Volume-up, mute and the window switch, pressed in turn.\<close>

theorem callbacks_on_calling_thread_witness:
  "TestHotkey \<notin> set [VolumeUp, Mute, SwitchApp] \<and>
   calls (on_hotkeys [VolumeUp, Mute, SwitchApp] (player_app 0.5)) =
     [(ListenerThread, CallGetVolume), (ListenerThread, CallSetVolume (fl 0.55)),
      (ListenerThread, CallToggleMute), (ListenerThread, CallAltTab)] \<and>
   single_shots (on_hotkeys [VolumeUp, Mute, SwitchApp] (player_app 0.5)) =
     [(ListenerThread, SafeShowOverlay), (ListenerThread, SafeShowOverlay),
      (ListenerThread, SafeShowOverlay)]"
proof -
  have rounded: "min 1 (py_round (fl (0.5 + fl 0.05)) 2) = fl 0.55"
    by (simp add: double_defs)
  have c: "calls (on_hotkeys [VolumeUp, Mute, SwitchApp] (player_app 0.5)) =
     [(ListenerThread, CallGetVolume),
      (ListenerThread, CallSetVolume (min 1 (py_round (fl (0.5 + fl 0.05)) 2))),
      (ListenerThread, CallToggleMute), (ListenerThread, CallAltTab)]"
    unfolding on_hotkeys_def presses.simps press.simps calls_of_callbacks
      player_app_current player_app_facts(4)
    by simp
  have s: "single_shots (on_hotkeys [VolumeUp, Mute, SwitchApp] (player_app 0.5)) =
     [(ListenerThread, SafeShowOverlay), (ListenerThread, SafeShowOverlay),
      (ListenerThread, SafeShowOverlay)]"
    unfolding on_hotkeys_def presses.simps press.simps single_shots_of_callbacks
      alt_tab_ok_kept player_app_facts(5)
    using player_app_current(2)[of "0.5"] by simp
  have t: "TestHotkey \<notin> set [VolumeUp, Mute, SwitchApp]" by simp
  show ?thesis
    using callbacks_on_calling_thread[OF t, of "player_app 0.5"] c s t
    unfolding rounded by simp
qed

text \<open>\<^verbatim>\<open>test_hotkey\<close> is left out above: it calls \<^verbatim>\<open>safe_show_overlay()\<close> and the tray icon
  itself, on the thread that runs it. A double click on the tray icon shows the overlay
  on the thread of the user interface.\<close>

lemma test_hotkey_calls_overlay:
  "calls (on_hotkeys [TestHotkey] a) =
     calls a @ (if overlay_ok a
                then [(ListenerThread, CallSafeShowOverlay), (ListenerThread, CallShowMessage)]
                else [(ListenerThread, CallSafeShowOverlay)]) \<and>
   single_shots (on_hotkeys [TestHotkey] a) = single_shots a"
  by (simp add: on_hotkeys_def test_hotkey_def)

lemma tray_double_click_on_ui_thread:
  "calls (tray_icon_activated True a) = calls a @ [(UiThread, CallSafeShowOverlay)]"
  by (simp add: tray_icon_activated_def)

end
